theory Spec2Isabelle
  imports Main "HOL-Library.Char_ord" "HOL-Library.List_Lexorder"
begin

unbundle bit_operations_syntax

section \<open>Data model (subprocess.h)\<close>

subsection \<open>Streams and StreamFlags\<close>

text \<open>
  \<^verbatim>\<open>struct Streams { static const int None = -1; static const int New = -2;
                   int in = None; int out = None; int err = None; };\<close>
  The three slots are plain C++ \<open>int\<close>s. Only comparisons with \<open>-1\<close>, \<open>-2\<close> and \<open>0\<close>
  are made on them, so they are modelled as \<open>int\<close>.
\<close>

definition Streams_None :: int where "Streams_None = -1"
definition Streams_New :: int where "Streams_New = -2"

record Streams =
  s_in :: int
  s_out :: int
  s_err :: int

definition Streams_default :: Streams where
  "Streams_default = \<lparr>s_in = Streams_None, s_out = Streams_None, s_err = Streams_None\<rparr>"

text \<open>
  \<^verbatim>\<open>struct StreamFlags { static const int Ignore = 1; static const int Create = 2;
                       static const int Accept = 4;
                       int in = Ignore; int out = Ignore; int err = Ignore; };\<close>
  A capability is a bit set held in an \<open>int\<close>; \<open>&\<close> and \<open>|\<close> are \<open>AND\<close> and \<open>OR\<close>.
\<close>

definition Ignore :: int where "Ignore = 1"
definition Create :: int where "Create = 2"
definition Accept :: int where "Accept = 4"

record StreamFlags =
  f_in :: int
  f_out :: int
  f_err :: int

definition StreamFlags_default :: StreamFlags where
  "StreamFlags_default = \<lparr>f_in = Ignore, f_out = Ignore, f_err = Ignore\<rparr>"

lemmas const_defs = Streams_None_def Streams_New_def Ignore_def Create_def Accept_def

subsection \<open>Errors\<close>

text \<open>
  The exceptions the source throws: \<open>std::invalid_argument\<close> (the spec's ValidationError,
  with its message), \<open>std::system_error\<close> (with the \<open>errno\<close> it carries) and
  \<open>std::out_of_range\<close> from \<open>std::map::at\<close> (the spec's MissingVariableError).
  An exception that leaves the body of a \<open>std::thread\<close> ends the program through
  \<open>std::terminate\<close>; that outcome is \<open>terminate\<close>.
\<close>

datatype error =
    invalid_argument string
  | system_error int
  | out_of_range
  | terminate

subsection \<open>Environment\<close>

text \<open>
  \<^verbatim>\<open>std::map<string, std::pair<string, bool>> env;\<close>
  An ordered map: iteration visits the keys in ascending order of \<open>std::string\<close>
  comparison (bytes compared as unsigned values, shorter prefix first). It is modelled as
  an association list kept in that order; the order on \<open>string\<close> is the lexicographic
  one of \<open>HOL-Library.List_Lexorder\<close> over \<open>HOL-Library.Char_ord\<close>.
\<close>

type_synonym environment = "(string \<times> (string \<times> bool)) list"

text \<open>\<open>env[name] = v\<close>: overwrite the entry of \<open>name\<close>, or insert it at its place.\<close>

fun map_assign :: "string \<Rightarrow> (string \<times> bool) \<Rightarrow> environment \<Rightarrow> environment" where
  "map_assign k v [] = [(k, v)]"
| "map_assign k v ((k', v') # rest) =
     (if k = k' then (k, v) # rest
      else if k < k' then (k, v) # (k', v') # rest
      else (k', v') # map_assign k v rest)"

text \<open>\<open>env.emplace(name, v)\<close>: insert only when \<open>name\<close> has no entry yet.\<close>

fun map_emplace :: "string \<Rightarrow> (string \<times> bool) \<Rightarrow> environment \<Rightarrow> environment" where
  "map_emplace k v [] = [(k, v)]"
| "map_emplace k v ((k', v') # rest) =
     (if k = k' then (k', v') # rest
      else if k < k' then (k, v) # (k', v') # rest
      else (k', v') # map_emplace k v rest)"

text \<open>\<open>env.at(name)\<close>: the entry, or \<open>std::out_of_range\<close>.\<close>

definition map_at :: "environment \<Rightarrow> string \<Rightarrow> error + (string \<times> bool)" where
  "map_at e k = (case map_of e k of None \<Rightarrow> Inl out_of_range | Some v \<Rightarrow> Inr v)"

text \<open>
  \<^verbatim>\<open>Environment::Environment(char **list) : env{} {
      for (size_t i = 0; list[i]; i++) {
          const char *del = strchr(list[i], '=');
          env.emplace(string(list[i], del - list[i]),
                      std::pair<string, bool>(string(del + 1), true)); } };\<close>
  Every entry \<open>NAME=value\<close> of the host's \<open>environ\<close> is split at its first \<open>=\<close> and
  emplaced with \<open>exported = true\<close>, from index 0 on, so of two entries with one name the
  first stays. (\<open>strchr\<close> returns a null pointer for an entry without \<open>=\<close>, which the
  source does not test; the constructor is given the list of the entries already split.)
  \<open>Environment_emplace_all\<close> is the loop, on the map built so far.
\<close>

fun Environment_emplace_all :: "(string \<times> string) list \<Rightarrow> environment \<Rightarrow> environment" where
  "Environment_emplace_all [] e = e"
| "Environment_emplace_all ((n, v) # rest) e =
     Environment_emplace_all rest (map_emplace n (v, True) e)"

definition Environment_of_list :: "(string \<times> string) list \<Rightarrow> environment" where
  "Environment_of_list list = Environment_emplace_all list []"

text \<open>
  \<^verbatim>\<open>vector<const char *> Environment::envp() const {
      vector<const char *> out{};
      for (auto const &el : env) {
          if (el.second.second) { out.push_back(el.second.first.c_str()); }
      }
      out.push_back(nullptr);
      return out; }\<close>
  The block is the list of pushed C strings; the closing \<open>nullptr\<close> is the end of the list.
\<close>

fun envp :: "environment \<Rightarrow> string list" where
  "envp [] = []"
| "envp (el # rest) = (if snd (snd el) then fst (snd el) # envp rest else envp rest)"

subsection \<open>Gettable\<close>

text \<open>
  \<^verbatim>\<open>string GettableString::get(const Environment &env) const { return value; }
  string GettableVariable::get(const Environment &env) const { return env.env.at(name).first; }\<close>
\<close>

datatype gettable = GettableString string | GettableVariable string

fun get :: "gettable \<Rightarrow> environment \<Rightarrow> error + string" where
  "get (GettableString v) e = Inr v"
| "get (GettableVariable name) e =
     (case map_at e name of Inl x \<Rightarrow> Inl x | Inr v \<Rightarrow> Inr (fst v))"

subsection \<open>Subprocess: the expression tree\<close>

text \<open>
  The classes derived from \<open>Subprocess\<close>. \<open>File\<close> carries its path and its \<open>mode\<close>
  (\<open>File::Read = 1\<close>, \<open>File::Write = 2\<close>, \<open>File::Append = 4\<close>). The constructors of
  \<open>Pipe\<close>, \<open>Or\<close> and \<open>And\<close> store \<open>copy()\<close> of their operands; a value of a datatype is
  its own deep copy.
\<close>

datatype subprocess =
    Pipe subprocess subprocess
  | Or subprocess subprocess
  | And subprocess subprocess
  | Exec "gettable list"
  | Echo "gettable list"
  | Read string
  | File gettable int
  | True'
  | False'

definition File_Read :: int where "File_Read = 1"
definition File_Write :: int where "File_Write = 2"
definition File_Append :: int where "File_Append = 4"

lemmas File_defs = File_Read_def File_Write_def File_Append_def

text \<open>
  \<open>get_flags\<close>: the base class returns the defaults (all \<open>Ignore\<close>); \<open>Or\<close>, \<open>And\<close>, \<open>True\<close>
  and \<open>False\<close> do not override it.
  \<^verbatim>\<open>Pipe:  {.in = lhs->get_flags().in, .out = rhs->get_flags().out, .err = rhs->get_flags().out}
  Exec:  all three Create | Accept | Ignore
  Read:  {.in = Create | Accept, .out = Ignore, .err = Ignore}
  Echo:  {.in = Ignore, .out = Create | Accept, .err = Ignore}
  File:  {.in = mode & File::Write ? Create : Ignore, .out = mode & File::Read ? Create : Ignore,
          .err = Ignore}\<close>
\<close>

fun get_flags :: "subprocess \<Rightarrow> StreamFlags" where
  "get_flags (Pipe lhs rhs) =
     \<lparr>f_in = f_in (get_flags lhs), f_out = f_out (get_flags rhs), f_err = f_out (get_flags rhs)\<rparr>"
| "get_flags (Exec argv) =
     \<lparr>f_in = Create OR Accept OR Ignore, f_out = Create OR Accept OR Ignore,
      f_err = Create OR Accept OR Ignore\<rparr>"
| "get_flags (Read name) = \<lparr>f_in = Create OR Accept, f_out = Ignore, f_err = Ignore\<rparr>"
| "get_flags (Echo var) = \<lparr>f_in = Ignore, f_out = Create OR Accept, f_err = Ignore\<rparr>"
| "get_flags (File path mode) =
     \<lparr>f_in = (if mode AND File_Write \<noteq> 0 then Create else Ignore),
      f_out = (if mode AND File_Read \<noteq> 0 then Create else Ignore),
      f_err = Ignore\<rparr>"
| "get_flags (Or lhs rhs) = StreamFlags_default"
| "get_flags (And lhs rhs) = StreamFlags_default"
| "get_flags True' = StreamFlags_default"
| "get_flags False' = StreamFlags_default"

text \<open>
  \<^verbatim>\<open>bool Subprocess::check_stream(int stream, int flag) {
      return (stream == Streams::None && (flag & StreamFlags::Ignore)) ||
             (stream == Streams::New && (flag & StreamFlags::Create)) ||
             (stream >= 0 && (flag & StreamFlags::Accept)); }\<close>
\<close>

definition check_stream :: "int \<Rightarrow> int \<Rightarrow> bool" where
  "check_stream stream flag \<longleftrightarrow>
     (stream = Streams_None \<and> flag AND Ignore \<noteq> 0) \<or>
     (stream = Streams_New \<and> flag AND Create \<noteq> 0) \<or>
     (stream \<ge> 0 \<and> flag AND Accept \<noteq> 0)"

text \<open>
  \<^verbatim>\<open>void Subprocess::check_streams(Streams streams) const {
      StreamFlags flags = get_flags();
      if (!check_stream(streams.in, flags.in))
          throw std::invalid_argument("Wrong file descriptor option for stdin");
      if (!check_stream(streams.out, flags.out))
          throw std::invalid_argument("Wrong file descriptor option for stdout");
      if (!check_stream(streams.err, flags.err))
          throw std::invalid_argument("Wrong file descriptor option for stderr"); }\<close>
  \<open>None\<close> is the normal return, \<open>Some e\<close> the exception thrown.
\<close>

definition check_streams :: "subprocess \<Rightarrow> Streams \<Rightarrow> error option" where
  "check_streams sub streams =
     (let flags = get_flags sub in
      if \<not> check_stream (s_in streams) (f_in flags)
        then Some (invalid_argument ''Wrong file descriptor option for stdin'')
      else if \<not> check_stream (s_out streams) (f_out flags)
        then Some (invalid_argument ''Wrong file descriptor option for stdout'')
      else if \<not> check_stream (s_err streams) (f_err flags)
        then Some (invalid_argument ''Wrong file descriptor option for stderr'')
      else None)"

section \<open>The operating system (external collaborator)\<close>

text \<open>
  The source calls \<open>pipe2\<close>, \<open>fork\<close>, \<open>dup2\<close>, \<open>execvpe\<close>, \<open>waitid\<close>, \<open>open\<close>, \<open>read\<close>,
  \<open>write\<close> and \<open>close\<close> and starts \<open>std::thread\<close>s. They are not code of the repository;
  the state they act on is the record \<open>world\<close>, and each call is a function on it.

  \<^item> \<open>env\<close> is the \<open>Environment\<close> object the run is made in (it is shared by reference by
    every node of a run, so it is part of the state);
  \<^item> \<open>fdtab\<close> is the descriptor table of the calling process; a descriptor refers to the
    read end or the write end of a pipe, or to an open file with its position and mode;
  \<^item> \<open>pipes\<close> holds the bytes in flight in each pipe, \<open>files\<close> the content of each file;
  \<^item> \<open>procs\<close> records every child process made by \<open>fork\<close>: the argument vector and the
    environment block it passed to \<open>execvpe\<close>, its status, and whether it has been
    waited for;
  \<^item> \<open>threads\<close> counts the \<open>std::thread\<close>s created, \<open>joinable\<close> tells which can still be
    joined;
  \<^item> \<open>fd_limit\<close> and \<open>proc_limit\<close> are the resource limits at which \<open>pipe2\<close>/\<open>open\<close> and
    \<open>fork\<close> fail; \<open>wchunk\<close> and \<open>rchunk\<close> bound the bytes one \<open>write\<close> or \<open>read\<close> call
    transfers (a call on a non-empty request transfers at least one byte);
  \<^item> \<open>programs\<close> is the behaviour of the external programs: from the argument vector,
    the environment block and the bytes on standard input to the bytes written to
    standard output and standard error and the status \<open>waitid\<close> reports. It includes
    the case where \<open>execvpe\<close> fails and the child leaves with \<open>exit(errno)\<close>.

  Scheduling. Worker threads and child processes run concurrently with their creator.
  The model runs each of them to completion at the point where it is created. Within one
  expression data flows through a pipe from a unit that is created first to one that is
  created later (or into a file that is already open), so this is one of the schedules
  the program admits, with a pipe that never fills up; a reader that finds its pipe
  empty has therefore seen every byte, and \<open>read\<close> returns \<open>0\<close> there.
\<close>

datatype fdobj =
    PipeRead nat
  | PipeWrite nat
  | FileDesc string nat bool bool bool
    \<comment> \<open>path, position, open for reading, open for writing, \<open>O_APPEND\<close>\<close>

record proc =
  p_argv :: "string list"
  p_envp :: "string list"
  p_status :: int
  p_reaped :: bool

record world =
  env :: environment
  fdtab :: "int \<rightharpoonup> fdobj"
  next_fd :: nat
  fd_limit :: nat
  pipes :: "nat \<Rightarrow> string"
  next_pipe :: nat
  files :: "string \<rightharpoonup> string"
  procs :: "int \<rightharpoonup> proc"
  nprocs :: nat
  proc_limit :: nat
  threads :: nat
  joinable :: "nat \<Rightarrow> bool"
  errno :: int
  wchunk :: nat
  rchunk :: nat
  programs :: "string list \<Rightarrow> string list \<Rightarrow> string \<Rightarrow> string \<times> string \<times> int"

text \<open>The \<open>errno\<close> values and the signal number used below (Linux).\<close>

definition ENOENT :: int where "ENOENT = 2"
definition EBADF :: int where "EBADF = 9"
definition ECHILD :: int where "ECHILD = 10"
definition EAGAIN :: int where "EAGAIN = 11"
definition EINVAL :: int where "EINVAL = 22"
definition EMFILE :: int where "EMFILE = 24"
definition SIGABRT :: int where "SIGABRT = 6"

text \<open>The \<open>open\<close> flags the source uses (Linux values).\<close>

definition O_RDONLY :: int where "O_RDONLY = 0"
definition O_WRONLY :: int where "O_WRONLY = 1"
definition O_RDWR :: int where "O_RDWR = 2"
definition O_CREAT :: int where "O_CREAT = 64"
definition O_TRUNC :: int where "O_TRUNC = 512"
definition O_APPEND :: int where "O_APPEND = 1024"
definition O_CLOEXEC :: int where "O_CLOEXEC = 524288"

lemmas O_defs = O_RDONLY_def O_WRONLY_def O_RDWR_def O_CREAT_def O_TRUNC_def O_APPEND_def
  O_CLOEXEC_def

definition file_content :: "world \<Rightarrow> string \<Rightarrow> string" where
  "file_content w path = (case files w path of None \<Rightarrow> [] | Some c \<Rightarrow> c)"

text \<open>\<open>pipe2(fds, O_CLOEXEC)\<close>: two new descriptors on a new, empty pipe; \<open>fds[0]\<close> is
  the read end and \<open>fds[1]\<close> the write end.\<close>

definition os_pipe2 :: "world \<Rightarrow> (int \<times> int) option \<times> world" where
  "os_pipe2 w =
     (if next_fd w + 2 > fd_limit w then (None, w\<lparr>errno := EMFILE\<rparr>)
      else
        let r = int (next_fd w); p = next_pipe w in
        (Some (r, r + 1),
         w\<lparr>fdtab := (fdtab w)(r \<mapsto> PipeRead p, r + 1 \<mapsto> PipeWrite p),
           next_fd := next_fd w + 2,
           pipes := (pipes w)(p := []),
           next_pipe := Suc p\<rparr>))"

text \<open>\<open>close(fd)\<close>; the source never looks at its result.\<close>

definition os_close :: "int \<Rightarrow> world \<Rightarrow> world" where
  "os_close fd w =
     (case fdtab w fd of
        None \<Rightarrow> w\<lparr>errno := EBADF\<rparr>
      | Some ob \<Rightarrow> w\<lparr>fdtab := (fdtab w)(fd := None)\<rparr>)"

text \<open>\<open>write(fd, bytes, length bytes)\<close>: the number of bytes taken (at most \<open>wchunk\<close>, at
  least one of a non-empty request), or \<open>-1\<close> with \<open>errno\<close> set.\<close>

definition os_write :: "int \<Rightarrow> string \<Rightarrow> world \<Rightarrow> int \<times> world" where
  "os_write fd bytes w =
     (let k = min (length bytes) (max 1 (wchunk w)) in
      case fdtab w fd of
        Some (PipeWrite p) \<Rightarrow> (int k, w\<lparr>pipes := (pipes w)(p := pipes w p @ take k bytes)\<rparr>)
      | Some (FileDesc path pos rd wr app) \<Rightarrow>
          if wr then
            let c = file_content w path;
                at = (if app then length c else pos) in
            (int k,
             w\<lparr>files := (files w)(path \<mapsto> take at c @ take k bytes @ drop (at + k) c),
               fdtab := (fdtab w)(fd \<mapsto> FileDesc path (at + k) rd wr app)\<rparr>)
          else (-1, w\<lparr>errno := EBADF\<rparr>)
      | _ \<Rightarrow> (-1, w\<lparr>errno := EBADF\<rparr>))"

text \<open>\<open>read(fd, buffer, n)\<close>: the count and the bytes read (at most \<open>n\<close> and at most
  \<open>rchunk\<close>, at least one when there is one), \<open>0\<close> at the end of the stream, or \<open>-1\<close> with
  \<open>errno\<close> set.\<close>

definition os_read :: "int \<Rightarrow> nat \<Rightarrow> world \<Rightarrow> int \<times> string \<times> world" where
  "os_read fd n w =
     (let m = min n (max 1 (rchunk w)) in
      case fdtab w fd of
        Some (PipeRead p) \<Rightarrow>
          (let k = min m (length (pipes w p)) in
           (int k, take k (pipes w p), w\<lparr>pipes := (pipes w)(p := drop k (pipes w p))\<rparr>))
      | Some (FileDesc path pos rd wr app) \<Rightarrow>
          if rd then
            let c = file_content w path;
                k = min m (length c - pos) in
            (int k, take k (drop pos c),
             w\<lparr>fdtab := (fdtab w)(fd \<mapsto> FileDesc path (pos + k) rd wr app)\<rparr>)
          else (-1, [], w\<lparr>errno := EBADF\<rparr>)
      | _ \<Rightarrow> (-1, [], w\<lparr>errno := EBADF\<rparr>))"

text \<open>The bytes \<open>read\<close> can still deliver on \<open>fd\<close>.\<close>

definition avail :: "int \<Rightarrow> world \<Rightarrow> nat" where
  "avail fd w =
     (case fdtab w fd of
        Some (PipeRead p) \<Rightarrow> length (pipes w p)
      | Some (FileDesc path pos rd wr app) \<Rightarrow> length (file_content w path) - pos
      | _ \<Rightarrow> 0)"

text \<open>\<open>open(path, flags, 0644)\<close>: the new descriptor, or \<open>-1\<close> with \<open>errno\<close> set. With
  \<open>O_CREAT\<close> a missing file is created empty; \<open>O_TRUNC\<close> empties a file opened for
  writing.\<close>

definition os_open :: "string \<Rightarrow> int \<Rightarrow> world \<Rightarrow> int \<times> world" where
  "os_open path flags w =
     (let acc = flags AND 3;
          rd = (acc = O_RDONLY \<or> acc = O_RDWR);
          wr = (acc = O_WRONLY \<or> acc = O_RDWR);
          fd = int (next_fd w) in
      if path = [] \<or> (files w path = None \<and> flags AND O_CREAT = 0)
        then (-1, w\<lparr>errno := ENOENT\<rparr>)
      else if next_fd w + 1 > fd_limit w then (-1, w\<lparr>errno := EMFILE\<rparr>)
      else
        (fd,
         w\<lparr>files := (if files w path = None \<or> (wr \<and> flags AND O_TRUNC \<noteq> 0)
                       then (files w)(path \<mapsto> []) else files w),
           fdtab := (fdtab w)(fd \<mapsto> FileDesc path 0 rd wr (flags AND O_APPEND \<noteq> 0)),
           next_fd := next_fd w + 1\<rparr>))"

text \<open>What a child process does with its standard streams: it reads all of its standard
  input and writes its output. A stream that is not a descriptor of the table is one
  the process inherited from outside (a terminal, say); nothing is read from it and
  what is written to it is not recorded.\<close>

definition os_read_all :: "int \<Rightarrow> world \<Rightarrow> string \<times> world" where
  "os_read_all fd w =
     (case fdtab w fd of
        Some (PipeRead p) \<Rightarrow> (pipes w p, w\<lparr>pipes := (pipes w)(p := [])\<rparr>)
      | Some (FileDesc path pos rd wr app) \<Rightarrow>
          if rd then
            (drop pos (file_content w path),
             w\<lparr>fdtab := (fdtab w)(fd \<mapsto>
                  FileDesc path (max pos (length (file_content w path))) rd wr app)\<rparr>)
          else ([], w)
      | _ \<Rightarrow> ([], w))"

definition os_write_all :: "int \<Rightarrow> string \<Rightarrow> world \<Rightarrow> world" where
  "os_write_all fd bytes w =
     (case fdtab w fd of
        Some (PipeWrite p) \<Rightarrow> w\<lparr>pipes := (pipes w)(p := pipes w p @ bytes)\<rparr>
      | Some (FileDesc path pos rd wr app) \<Rightarrow>
          if wr then
            let c = file_content w path;
                at = (if app then length c else pos) in
            w\<lparr>files := (files w)(path \<mapsto> take at c @ bytes @ drop (at + length bytes) c),
              fdtab := (fdtab w)(fd \<mapsto> FileDesc path (at + length bytes) rd wr app)\<rparr>
          else w
      | _ \<Rightarrow> w)"

text \<open>\<open>fork()\<close>: the new child's process identifier (positive), or \<open>-1\<close> with \<open>errno\<close>
  set when the limit on processes is reached.\<close>

definition os_fork :: "world \<Rightarrow> int \<times> world" where
  "os_fork w =
     (if nprocs w \<ge> proc_limit w then (-1, w\<lparr>errno := EAGAIN\<rparr>)
      else (int (nprocs w) + 1, w\<lparr>nprocs := Suc (nprocs w)\<rparr>))"

text \<open>\<open>waitid(P_PID, pid, &siginfo, WEXITED | WSTOPPED)\<close>: the status of a child that
  has not been waited for yet, or failure.\<close>

definition os_waitid :: "int \<Rightarrow> world \<Rightarrow> int option \<times> world" where
  "os_waitid pid w =
     (case procs w pid of
        None \<Rightarrow> (None, w\<lparr>errno := ECHILD\<rparr>)
      | Some p \<Rightarrow>
          if p_reaped p then (None, w\<lparr>errno := ECHILD\<rparr>)
          else (Some (p_status p), w\<lparr>procs := (procs w)(pid \<mapsto> p\<lparr>p_reaped := True\<rparr>)\<rparr>))"

text \<open>Construction of a \<open>std::thread\<close>, and \<open>std::thread::join\<close>, which throws
  \<open>std::system_error\<close> on a thread that is not joinable.\<close>

definition thread_create :: "world \<Rightarrow> nat \<times> world" where
  "thread_create w =
     (threads w, w\<lparr>threads := Suc (threads w), joinable := (joinable w)(threads w := True)\<rparr>)"

definition thread_join :: "nat \<Rightarrow> world \<Rightarrow> error option \<times> world" where
  "thread_join tid w =
     (if joinable w tid then (None, w\<lparr>joinable := (joinable w)(tid := False)\<rparr>)
      else (Some (system_error EINVAL), w))"

section \<open>Running subprocesses (subprocess.cpp)\<close>

subsection \<open>RunSubprocess: the handles\<close>

text \<open>
  \<open>RunPipe\<close> holds the handles of its two sides, \<open>RunExec\<close> the process identifier and
  the streams, \<open>RunThread\<close> the thread, the streams and the field \<open>ret\<close> its worker writes,
  \<open>RunEmpty\<close> the streams and a fixed \<open>ret\<close>. As a worker runs to completion where it is
  created, \<open>RunThread tid ret str\<close> carries the value the worker has left in \<open>ret\<close>.
\<close>

datatype runsubprocess =
    RunPipe runsubprocess runsubprocess
  | RunExec int Streams
  | RunThread nat int Streams
  | RunEmpty Streams int

text \<open>
  \<^verbatim>\<open>Streams RunPipe::get_streams() const {
      return {.in = lhs->get_streams().in, .out = rhs->get_streams().out,
              .err = rhs->get_streams().err}; }\<close>
  The other three return their field \<open>streams\<close>.
\<close>

fun get_streams :: "runsubprocess \<Rightarrow> Streams" where
  "get_streams (RunPipe lhs rhs) =
     \<lparr>s_in = s_in (get_streams lhs), s_out = s_out (get_streams rhs),
      s_err = s_err (get_streams rhs)\<rparr>"
| "get_streams (RunExec pid streams) = streams"
| "get_streams (RunThread tid ret streams) = streams"
| "get_streams (RunEmpty streams ret) = streams"

text \<open>
  \<^verbatim>\<open>int RunPipe::wait()   { return lhs->wait() | rhs->wait(); }
  int RunExec::wait()   { siginfo_t siginfo;
                          if (waitid(P_PID, pid, &siginfo, WEXITED | WSTOPPED)) return -1;
                          return siginfo.si_status; }
  int RunThread::wait() { thread.join(); return ret; }
  int RunEmpty::wait()  { return ret; }\<close>
  C++ leaves the order of the two operands of \<open>|\<close> open; the left one is taken first.
\<close>

fun wait :: "runsubprocess \<Rightarrow> world \<Rightarrow> (error + int) \<times> world" where
  "wait (RunPipe lhs rhs) w =
     (case wait lhs w of
        (Inl e, w1) \<Rightarrow> (Inl e, w1)
      | (Inr a, w1) \<Rightarrow>
          (case wait rhs w1 of
             (Inl e, w2) \<Rightarrow> (Inl e, w2)
           | (Inr b, w2) \<Rightarrow> (Inr (a OR b), w2)))"
| "wait (RunExec pid streams) w =
     (case os_waitid pid w of
        (None, w1) \<Rightarrow> (Inr (-1), w1)
      | (Some si_status, w1) \<Rightarrow> (Inr si_status, w1))"
| "wait (RunThread tid ret streams) w =
     (case thread_join tid w of
        (Some e, w1) \<Rightarrow> (Inl e, w1)
      | (None, w1) \<Rightarrow> (Inr ret, w1))"
| "wait (RunEmpty streams ret) w = (Inr ret, w)"

subsection \<open>open_pipe and close_pipe\<close>

text \<open>
  \<^verbatim>\<open>static void open_pipe(int &str, int fds[2], bool input) {
      if (str != Streams::None) {
          if (str == Streams::New) {
              if (::pipe2(fds, O_CLOEXEC)) { throw std::system_error(...errno...); };
              str = fds[input ? 1 : 0];
          } else {
              fds[input ? 0 : 1] = str;
          } } }\<close>
  The function updates \<open>str\<close> and \<open>fds\<close> in place; the model returns both.
\<close>

definition open_pipe ::
  "int \<Rightarrow> int \<times> int \<Rightarrow> bool \<Rightarrow> world \<Rightarrow> (error + int \<times> (int \<times> int)) \<times> world" where
  "open_pipe str fds input w =
     (if str \<noteq> Streams_None then
        if str = Streams_New then
          (case os_pipe2 w of
             (None, w1) \<Rightarrow> (Inl (system_error (errno w1)), w1)
           | (Some p, w1) \<Rightarrow> (Inr (if input then snd p else fst p, p), w1))
        else (Inr (str, if input then (str, snd fds) else (fst fds, str)), w)
      else (Inr (str, fds), w))"

text \<open>
  \<^verbatim>\<open>static void close_pipe(int fd) { if (fd != Streams::None) close(fd); }\<close>
\<close>

definition close_pipe :: "int \<Rightarrow> world \<Rightarrow> world" where
  "close_pipe fd w = (if fd \<noteq> Streams_None then os_close fd w else w)"

subsection \<open>Exec\<close>

text \<open>The loop \<open>for (auto &s : argv) c_argv.push_back(strdup(s->get(env).c_str()))\<close>;
  the first \<open>get\<close> that throws ends it.\<close>

fun resolve :: "gettable list \<Rightarrow> environment \<Rightarrow> error + string list" where
  "resolve [] e = Inr []"
| "resolve (s # rest) e =
     (case get s e of
        Inl x \<Rightarrow> Inl x
      | Inr v \<Rightarrow> (case resolve rest e of Inl x \<Rightarrow> Inl x | Inr vs \<Rightarrow> Inr (v # vs)))"

text \<open>
  The child's branch of \<open>Exec::start\<close> (\<open>pid == 0\<close>):
  \<^verbatim>\<open>close_pipe(fds[STDIN_FILENO][1]); close_pipe(fds[STDOUT_FILENO][0]);
  close_pipe(fds[STDERR_FILENO][0]);
  if (fds[STDIN_FILENO][0] != Streams::None) dup2(fds[STDIN_FILENO][0], STDIN_FILENO);
  if (fds[STDOUT_FILENO][1] != Streams::None) dup2(fds[STDOUT_FILENO][1], STDOUT_FILENO);
  if (fds[STDERR_FILENO][1] != Streams::None) dup2(fds[STDERR_FILENO][1], STDERR_FILENO);
  vector<char *> c_argv{}; ...
  for (auto &s : argv) { c_argv.push_back(strdup(s->get(env).c_str())); }
  c_argv.push_back(NULL);
  execvpe(c_argv[0], c_argv.data(), const_cast<char *const *>(env.envp().data()));
  exit(errno);\<close>
  The child works on its own copy of the descriptor table, so its three \<open>close_pipe\<close>
  calls change nothing for the parent. After the \<open>dup2\<close> calls its standard input is
  what \<open>fds[0][0]\<close> refers to, its standard output \<open>fds[1][1]\<close>, its standard error
  \<open>fds[2][1]\<close>; where the slot is \<open>None\<close>, or \<open>dup2\<close> fails on a descriptor that is not
  open, the stream stays the inherited one. The arguments are resolved here, in the
  child. When a \<open>get\<close> throws, no handler of the library catches it and the child ends in
  \<open>std::terminate\<close>, that is by \<open>SIGABRT\<close>, without having called \<open>execvpe\<close>. Otherwise the
  program runs (\<open>programs\<close>) on the resolved arguments and on \<open>env.envp()\<close>. The result is
  the record of the child and the world after its input and output.
\<close>

definition Exec_child ::
  "(int \<times> int) \<times> (int \<times> int) \<times> (int \<times> int) \<Rightarrow> gettable list \<Rightarrow> world \<Rightarrow> proc \<times> world" where
  "Exec_child fds argv w =
     (case fds of (fds_in, fds_out, fds_err) \<Rightarrow>
        (case resolve argv (env w) of
           Inl x \<Rightarrow> (\<lparr>p_argv = [], p_envp = [], p_status = SIGABRT, p_reaped = False\<rparr>, w)
         | Inr c_argv \<Rightarrow>
             (case (if fst fds_in \<noteq> Streams_None then os_read_all (fst fds_in) w else ([], w)) of
                (input, w1) \<Rightarrow>
                  (case programs w c_argv (envp (env w)) input of
                     (output, errors, status) \<Rightarrow>
                       (\<lparr>p_argv = c_argv, p_envp = envp (env w), p_status = status,
                         p_reaped = False\<rparr>,
                        (let w2 = (if snd fds_out \<noteq> Streams_None
                                   then os_write_all (snd fds_out) output w1 else w1) in
                         if snd fds_err \<noteq> Streams_None
                         then os_write_all (snd fds_err) errors w2 else w2))))))"

text \<open>
  \<^verbatim>\<open>runsubprocess Exec::start(Streams str, const Environment &env) const {
      check_streams(str);
      int fds[3][2];
      memset(fds, Streams::None, sizeof(fds));
      open_pipe(str.in, fds[STDIN_FILENO], true);
      open_pipe(str.out, fds[STDOUT_FILENO], false);
      open_pipe(str.err, fds[STDERR_FILENO], false);
      pid_t pid = fork();
      if (pid == 0) { /* child, above */ }
      else if (pid < 0) { throw std::system_error(...errno...); }
      else { close_pipe(fds[STDIN_FILENO][0]); close_pipe(fds[STDOUT_FILENO][1]);
             close_pipe(fds[STDERR_FILENO][1]);
             return runsubprocess(new RunExec(pid, str)); } }\<close>
\<close>

definition Exec_start :: "gettable list \<Rightarrow> Streams \<Rightarrow> world \<Rightarrow> (error + runsubprocess) \<times> world" where
  "Exec_start argv str w =
     (case check_streams (Exec argv) str of
        Some e \<Rightarrow> (Inl e, w)
      | None \<Rightarrow>
     (case open_pipe (s_in str) (Streams_None, Streams_None) True w of
        (Inl e, w1) \<Rightarrow> (Inl e, w1)
      | (Inr (str_in, fds_in), w1) \<Rightarrow>
     (case open_pipe (s_out str) (Streams_None, Streams_None) False w1 of
        (Inl e, w2) \<Rightarrow> (Inl e, w2)
      | (Inr (str_out, fds_out), w2) \<Rightarrow>
     (case open_pipe (s_err str) (Streams_None, Streams_None) False w2 of
        (Inl e, w3) \<Rightarrow> (Inl e, w3)
      | (Inr (str_err, fds_err), w3) \<Rightarrow>
     (case os_fork w3 of
        (pid, w4) \<Rightarrow>
          if pid < 0 then (Inl (system_error (errno w4)), w4)
          else
            (case Exec_child (fds_in, fds_out, fds_err) argv w4 of
               (child, w5) \<Rightarrow>
                 (Inr (RunExec pid \<lparr>s_in = str_in, s_out = str_out, s_err = str_err\<rparr>),
                  close_pipe (snd fds_err)
                    (close_pipe (snd fds_out)
                      (close_pipe (fst fds_in)
                        (w5\<lparr>procs := (procs w5)(pid \<mapsto> child)\<rparr>))))))))))"

subsection \<open>RunThread\<close>

text \<open>
  \<^verbatim>\<open>RunThread::RunThread(std::function<void(int &)> &&fun, Streams str) :
      ret(0), thread(std::thread(std::move(fun), std::ref(ret))), streams(str) {}\<close>
  \<open>thread_create\<close> is the construction of the thread; the worker then runs, starting from
  \<open>ret = 0\<close>. \<open>RunThread_done\<close> is the handle once the worker is through: a worker that
  returned leaves its \<open>ret\<close>, a worker that threw ended the program.
\<close>

definition RunThread_done ::
  "nat \<Rightarrow> Streams \<Rightarrow> (error + int) \<times> world \<Rightarrow> (error + runsubprocess) \<times> world" where
  "RunThread_done tid str r =
     (case r of
        (Inl e, w) \<Rightarrow> (Inl terminate, w)
      | (Inr ret, w) \<Rightarrow> (Inr (RunThread tid ret str), w))"

subsection \<open>Echo\<close>

definition space :: string where "space = [CHR '' '']"
definition newline :: string where "newline = [CHR 0x0A]"

text \<open>
  The inner loop of the worker of \<open>Echo::start\<close>:
  \<^verbatim>\<open>ssize_t count = 0;
  while (true) {
      ssize_t ret = ::write(fds[1], &str[count], str.size() - count);
      if (ret < 0) { ret = errno; return; }
      else if (static_cast<size_t>(count += ret) == str.size()) { ...; break; } }\<close>
  The argument \<open>str\<close> of \<open>Echo_while\<close> is the part of the string from \<open>count\<close> on, which is
  what each \<open>write\<close> is given; \<open>count\<close> reaches \<open>str.size()\<close> when the call takes all of it.
  The result \<open>False\<close> is the \<open>return\<close> after a failed \<open>write\<close>. The name \<open>ret\<close> assigned
  there is the local \<open>ssize_t\<close>, not the worker's parameter, which keeps its value.
\<close>

function Echo_while :: "int \<Rightarrow> string \<Rightarrow> world \<Rightarrow> bool \<times> world" where
  "Echo_while fd str w =
     (case os_write fd str w of
        (ret, w1) \<Rightarrow>
          if ret < 0 then (False, w1)
          else if nat ret = length str then (True, w1)
          else Echo_while fd (drop (nat ret) str) w1)"
  by pat_completeness auto
termination
  apply (relation "measure (\<lambda>(fd, str, w). length str)")
   apply simp
  apply (auto simp: os_write_def Let_def split: option.splits fdobj.splits if_splits)
  done

declare Echo_while.simps [simp del]

text \<open>
  The outer loop:
  \<^verbatim>\<open>size_t i = 0;
  for (const auto &gt : var) {
      string str = gt->get(env);
      ... the inner loop, which on completion of the string does
          if (++i != var.size() && ::write(fds[1], " ", 1) < 0) { ret = errno; return; }
          break; }\<close>
  \<open>Echo_for fd var i n\<close> runs it on the remaining elements \<open>var\<close>, with \<open>i\<close> elements done
  and \<open>n = var.size()\<close>. \<open>Inr True\<close>: the loop ran to its end; \<open>Inr False\<close>: the worker
  returned from inside; \<open>Inl\<close>: \<open>get\<close> threw.
\<close>

fun Echo_for :: "int \<Rightarrow> gettable list \<Rightarrow> nat \<Rightarrow> nat \<Rightarrow> world \<Rightarrow> (error + bool) \<times> world" where
  "Echo_for fd [] i n w = (Inr True, w)"
| "Echo_for fd (gt # rest) i n w =
     (case get gt (env w) of
        Inl e \<Rightarrow> (Inl e, w)
      | Inr str \<Rightarrow>
          (case Echo_while fd str w of
             (False, w1) \<Rightarrow> (Inr False, w1)
           | (True, w1) \<Rightarrow>
               if Suc i \<noteq> n then
                 (case os_write fd space w1 of
                    (r, w2) \<Rightarrow> if r < 0 then (Inr False, w2) else Echo_for fd rest (Suc i) n w2)
               else Echo_for fd rest (Suc i) n w1))"

text \<open>
  The worker of \<open>Echo::start\<close>; after the loop:
  \<^verbatim>\<open>if (::write(fds[1], "\n", 1) < 0) ret = errno;
  close(fds[1]);\<close>
\<close>

definition Echo_worker :: "int \<Rightarrow> gettable list \<Rightarrow> int \<Rightarrow> world \<Rightarrow> (error + int) \<times> world" where
  "Echo_worker fd var ret w =
     (case Echo_for fd var 0 (length var) w of
        (Inl e, w1) \<Rightarrow> (Inl e, w1)
      | (Inr False, w1) \<Rightarrow> (Inr ret, w1)
      | (Inr True, w1) \<Rightarrow>
          (case os_write fd newline w1 of
             (r, w2) \<Rightarrow> (Inr (if r < 0 then errno w2 else ret), os_close fd w2)))"

text \<open>
  \<^verbatim>\<open>runsubprocess Echo::start(Streams str, const Environment &env) const {
      check_streams(str);
      int fds[2];
      open_pipe(str.out, fds, false);
      return runsubprocess(new RunThread([fds, &var = var, &env](int &ret) { ... }, str)); }\<close>
  \<open>fds\<close> is not initialised; \<open>check_streams\<close> has excluded \<open>str.out == None\<close>, so
  \<open>open_pipe\<close> sets \<open>fds[1]\<close>, the only element the worker reads. The model starts it
  from \<open>(None, None)\<close>.
\<close>

definition Echo_start :: "gettable list \<Rightarrow> Streams \<Rightarrow> world \<Rightarrow> (error + runsubprocess) \<times> world" where
  "Echo_start var str w =
     (case check_streams (Echo var) str of
        Some e \<Rightarrow> (Inl e, w)
      | None \<Rightarrow>
          (case open_pipe (s_out str) (Streams_None, Streams_None) False w of
             (Inl e, w1) \<Rightarrow> (Inl e, w1)
           | (Inr (str_out, fds), w1) \<Rightarrow>
               (case thread_create w1 of
                  (tid, w2) \<Rightarrow>
                    RunThread_done tid (str\<lparr>s_out := str_out\<rparr>) (Echo_worker (snd fds) var 0 w2))))"

subsection \<open>Read\<close>

text \<open>
  The loop of the worker of \<open>Read::start\<close>:
  \<^verbatim>\<open>const size_t bufsz = 1000; char buffer[bufsz]; string out{};
  while (true) {
      ssize_t count = ::read(fds[0], buffer, bufsz);
      if (count < 0) { ret = errno; return; }
      else if (count == 0) break;
      out.append(buffer, count); }\<close>
  \<open>Inl\<close> is the \<open>return\<close> with \<open>ret = errno\<close>, \<open>Inr\<close> the string read at the \<open>break\<close>.
\<close>

function Read_while :: "int \<Rightarrow> string \<Rightarrow> world \<Rightarrow> (int + string) \<times> world" where
  "Read_while fd out w =
     (case os_read fd 1000 w of
        (count, buffer, w1) \<Rightarrow>
          if count < 0 then (Inl (errno w1), w1)
          else if count = 0 then (Inr out, w1)
          else Read_while fd (out @ buffer) w1)"
  by pat_completeness auto
termination
  apply (relation "measure (\<lambda>(fd, out, w). avail fd w)")
   apply simp
  apply (auto simp: os_read_def avail_def Let_def file_content_def min_def max_def
              split: option.splits fdobj.splits if_splits)
  done

declare Read_while.simps [simp del]

text \<open>
  \<^verbatim>\<open>// Remove trailing newline
  if (!out.empty() && out.at(out.length() - 1) == '\n') out.erase(out.length() - 1);\<close>
\<close>

definition remove_trailing_newline :: "string \<Rightarrow> string" where
  "remove_trailing_newline out =
     (if out \<noteq> [] \<and> last out = CHR 0x0A then butlast out else out)"

text \<open>
  The worker of \<open>Read::start\<close>; after the loop:
  \<^verbatim>\<open>close(fds[0]);
  ... remove the trailing newline ...
  env.env[name] = {out, false};\<close>
\<close>

definition Read_worker :: "int \<Rightarrow> string \<Rightarrow> int \<Rightarrow> world \<Rightarrow> (error + int) \<times> world" where
  "Read_worker fd name ret w =
     (case Read_while fd [] w of
        (Inl e, w1) \<Rightarrow> (Inr e, w1)
      | (Inr out, w1) \<Rightarrow>
          (let w2 = os_close fd w1 in
           (Inr ret, w2\<lparr>env := map_assign name (remove_trailing_newline out, False) (env w2)\<rparr>)))"

text \<open>
  \<^verbatim>\<open>runsubprocess Read::start(Streams str, const Environment &env) const {
      throw std::invalid_argument("Can't create variable in const Environment"); }
  runsubprocess Read::start(Streams str, Environment &env) const {
      check_streams(str);
      int fds[2];
      open_pipe(str.in, fds, true);
      return runsubprocess(new RunThread([fds, &env, &name = name](int &ret) { ... }, str)); }\<close>
  \<open>mut\<close> tells which overload the call resolves to: \<open>True\<close> for \<open>Environment &\<close>, \<open>False\<close>
  for \<open>const Environment &\<close>.
\<close>

definition Read_start :: "string \<Rightarrow> Streams \<Rightarrow> bool \<Rightarrow> world \<Rightarrow> (error + runsubprocess) \<times> world" where
  "Read_start name str mut w =
     (if \<not> mut then (Inl (invalid_argument ''Can't create variable in const Environment''), w)
      else
        (case check_streams (Read name) str of
           Some e \<Rightarrow> (Inl e, w)
         | None \<Rightarrow>
             (case open_pipe (s_in str) (Streams_None, Streams_None) True w of
                (Inl e, w1) \<Rightarrow> (Inl e, w1)
              | (Inr (str_in, fds), w1) \<Rightarrow>
                  (case thread_create w1 of
                     (tid, w2) \<Rightarrow>
                       RunThread_done tid (str\<lparr>s_in := str_in\<rparr>)
                         (Read_worker (fst fds) name 0 w2)))))"

subsection \<open>File, True and False\<close>

text \<open>
  \<^verbatim>\<open>runsubprocess File::start(Streams str, const Environment &env) const {
      check_streams(str);
      int flags = O_CLOEXEC | O_CREAT;
      if ((mode & File::Read) && (mode & File::Write))
          flags |= O_RDWR | ((mode & File::Append) ? O_APPEND : 0);
      else if (mode & File::Write)
          flags |= O_WRONLY | ((mode & File::Append) ? O_APPEND : O_TRUNC);
      else if (mode & File::Read)
          flags |= O_RDONLY;
      int fd = ::open(path->get(env).c_str(), flags, S_IRUSR | S_IWUSR | S_IRGRP | S_IROTH);
      if (fd < 0) throw std::system_error(...errno...);
      Streams streams{.in = mode & File::Write ? fd : Streams::None,
                      .out = mode & File::Read ? fd : Streams::None, .err = Streams::None};
      return runsubprocess(new RunEmpty(streams, 0)); }\<close>
\<close>

definition File_flags :: "int \<Rightarrow> int" where
  "File_flags mode =
     (let flags = O_CLOEXEC OR O_CREAT in
      if mode AND File_Read \<noteq> 0 \<and> mode AND File_Write \<noteq> 0
        then flags OR (O_RDWR OR (if mode AND File_Append \<noteq> 0 then O_APPEND else 0))
      else if mode AND File_Write \<noteq> 0
        then flags OR (O_WRONLY OR (if mode AND File_Append \<noteq> 0 then O_APPEND else O_TRUNC))
      else if mode AND File_Read \<noteq> 0
        then flags OR O_RDONLY
      else flags)"

definition File_start :: "gettable \<Rightarrow> int \<Rightarrow> Streams \<Rightarrow> world \<Rightarrow> (error + runsubprocess) \<times> world" where
  "File_start path mode str w =
     (case check_streams (File path mode) str of
        Some e \<Rightarrow> (Inl e, w)
      | None \<Rightarrow>
          (case get path (env w) of
             Inl e \<Rightarrow> (Inl e, w)
           | Inr p \<Rightarrow>
               (case os_open p (File_flags mode) w of
                  (fd, w1) \<Rightarrow>
                    if fd < 0 then (Inl (system_error (errno w1)), w1)
                    else
                      (Inr (RunEmpty
                              \<lparr>s_in = (if mode AND File_Write \<noteq> 0 then fd else Streams_None),
                               s_out = (if mode AND File_Read \<noteq> 0 then fd else Streams_None),
                               s_err = Streams_None\<rparr> 0),
                       w1))))"

text \<open>
  \<^verbatim>\<open>runsubprocess True::start(Streams str, const Environment &env) const {
      check_streams(str); return runsubprocess(new RunEmpty({}, 0)); }
  runsubprocess False::start(Streams str, const Environment &env) const {
      check_streams(str); return runsubprocess(new RunEmpty({}, -1)); }\<close>
\<close>

definition True_start :: "Streams \<Rightarrow> world \<Rightarrow> (error + runsubprocess) \<times> world" where
  "True_start str w =
     (case check_streams True' str of
        Some e \<Rightarrow> (Inl e, w)
      | None \<Rightarrow> (Inr (RunEmpty Streams_default 0), w))"

definition False_start :: "Streams \<Rightarrow> world \<Rightarrow> (error + runsubprocess) \<times> world" where
  "False_start str w =
     (case check_streams False' str of
        Some e \<Rightarrow> (Inl e, w)
      | None \<Rightarrow> (Inr (RunEmpty Streams_default (-1)), w))"

subsection \<open>start and run\<close>

text \<open>
  \<^verbatim>\<open>int run(const subprocess &subprocess, Environment &env)
  { return subprocess->start({}, env)->wait(); }\<close>
  and the same for \<open>const Environment &\<close>. \<open>wait_started\<close> is the \<open>->wait()\<close> on what
  \<open>start\<close> returned; an exception of \<open>start\<close> passes through.
\<close>

definition wait_started :: "(error + runsubprocess) \<times> world \<Rightarrow> (error + int) \<times> world" where
  "wait_started r = (case r of (Inl e, w) \<Rightarrow> (Inl e, w) | (Inr p, w) \<Rightarrow> wait p w)"

text \<open>
  \<open>start sub str mut w\<close> is \<open>sub->start(str, env)\<close> in the world \<open>w\<close>, with \<open>mut\<close> the
  overload the call resolves to (\<open>Environment &\<close> or \<open>const Environment &\<close>).
  \<open>Exec\<close>, \<open>Echo\<close>, \<open>File\<close>, \<open>True\<close> and \<open>False\<close> override the \<open>const\<close> overload only, and
  \<^verbatim>\<open>runsubprocess Subprocess::start(Streams str, Environment &env) const
  { return start(str, const_cast<const Environment &>(env)); }\<close>
  sends the other one there, so \<open>mut\<close> makes no difference for them.

  \<^verbatim>\<open>template <typename E> runsubprocess Pipe::start(Streams str, E env) const {
      check_streams(str);
      StreamFlags lhs_f = lhs->get_flags();
      StreamFlags rhs_f = rhs->get_flags();
      runsubprocess lhs_p; runsubprocess rhs_p;
      if ((lhs_f.out & StreamFlags::Create) && (rhs_f.in & StreamFlags::Accept)) {
          lhs_p = lhs->start({.in = str.in, .out = Streams::New}, env);
          rhs_p = rhs->start({.in = lhs_p->get_streams().out, .out = str.out}, env);
      } else if ((lhs_f.out & StreamFlags::Accept) && (rhs_f.in & StreamFlags::Create)) {
          rhs_p = rhs->start({.in = Streams::New, .out = str.out}, env);
          lhs_p = lhs->start({.in = str.in, .out = rhs_p->get_streams().in}, env);
      } else { throw std::invalid_argument("Invalid pipe connection attempt"); }
      return runsubprocess(new RunPipe(std::move(lhs_p), std::move(rhs_p))); }\<close>
  (the \<open>err\<close> slot of both requests is the default, \<open>None\<close>), and

  \<^verbatim>\<open>runsubprocess And::start(Streams str, Environment &env) const {
      check_streams(str);
      return runsubprocess(new RunThread([&lhs = lhs, &rhs = rhs, &env](int &ret)
          { ret = !(!run(lhs, env) && !run(rhs, env)); }, str)); }
  runsubprocess Or::start(Streams str, Environment &env) const {
      check_streams(str);
      return runsubprocess(new RunThread([&lhs = lhs, &rhs = rhs, &env](int &ret)
          { ret = !(!run(lhs, env) || !run(rhs, env)); }, str)); }\<close>
  with the same bodies for \<open>const Environment &\<close>. In the workers, \<open>run(lhs, env)\<close> is
  \<open>wait_started (start lhs Streams_default mut w)\<close>; \<open>!x\<close> on an \<open>int\<close> is \<open>x = 0\<close>;
  \<open>&&\<close> and \<open>||\<close> evaluate their right operand only when the left one does not
  decide; the \<open>bool\<close> assigned to \<open>ret\<close> becomes \<open>0\<close> or \<open>1\<close>.
\<close>

fun start :: "subprocess \<Rightarrow> Streams \<Rightarrow> bool \<Rightarrow> world \<Rightarrow> (error + runsubprocess) \<times> world" where
  "start (Pipe lhs rhs) str mut w =
     (case check_streams (Pipe lhs rhs) str of
        Some e \<Rightarrow> (Inl e, w)
      | None \<Rightarrow>
          if f_out (get_flags lhs) AND Create \<noteq> 0 \<and> f_in (get_flags rhs) AND Accept \<noteq> 0 then
            (case start lhs \<lparr>s_in = s_in str, s_out = Streams_New, s_err = Streams_None\<rparr> mut w of
               (Inl e, w1) \<Rightarrow> (Inl e, w1)
             | (Inr lhs_p, w1) \<Rightarrow>
                 (case start rhs \<lparr>s_in = s_out (get_streams lhs_p), s_out = s_out str,
                                  s_err = Streams_None\<rparr> mut w1 of
                    (Inl e, w2) \<Rightarrow> (Inl e, w2)
                  | (Inr rhs_p, w2) \<Rightarrow> (Inr (RunPipe lhs_p rhs_p), w2)))
          else if f_out (get_flags lhs) AND Accept \<noteq> 0 \<and> f_in (get_flags rhs) AND Create \<noteq> 0 then
            (case start rhs \<lparr>s_in = Streams_New, s_out = s_out str, s_err = Streams_None\<rparr> mut w of
               (Inl e, w1) \<Rightarrow> (Inl e, w1)
             | (Inr rhs_p, w1) \<Rightarrow>
                 (case start lhs \<lparr>s_in = s_in str, s_out = s_in (get_streams rhs_p),
                                  s_err = Streams_None\<rparr> mut w1 of
                    (Inl e, w2) \<Rightarrow> (Inl e, w2)
                  | (Inr lhs_p, w2) \<Rightarrow> (Inr (RunPipe lhs_p rhs_p), w2)))
          else (Inl (invalid_argument ''Invalid pipe connection attempt''), w))"
| "start (Or lhs rhs) str mut w =
     (case check_streams (Or lhs rhs) str of
        Some e \<Rightarrow> (Inl e, w)
      | None \<Rightarrow>
          (case thread_create w of
             (tid, w1) \<Rightarrow>
               RunThread_done tid str
                 (case wait_started (start lhs Streams_default mut w1) of
                    (Inl e, w2) \<Rightarrow> (Inl e, w2)
                  | (Inr a, w2) \<Rightarrow>
                      if a = 0 then (Inr (of_bool (\<not> True)), w2)
                      else
                        (case wait_started (start rhs Streams_default mut w2) of
                           (Inl e, w3) \<Rightarrow> (Inl e, w3)
                         | (Inr b, w3) \<Rightarrow> (Inr (of_bool (\<not> (a = 0 \<or> b = 0))), w3)))))"
| "start (And lhs rhs) str mut w =
     (case check_streams (And lhs rhs) str of
        Some e \<Rightarrow> (Inl e, w)
      | None \<Rightarrow>
          (case thread_create w of
             (tid, w1) \<Rightarrow>
               RunThread_done tid str
                 (case wait_started (start lhs Streams_default mut w1) of
                    (Inl e, w2) \<Rightarrow> (Inl e, w2)
                  | (Inr a, w2) \<Rightarrow>
                      if a \<noteq> 0 then (Inr (of_bool (\<not> False)), w2)
                      else
                        (case wait_started (start rhs Streams_default mut w2) of
                           (Inl e, w3) \<Rightarrow> (Inl e, w3)
                         | (Inr b, w3) \<Rightarrow> (Inr (of_bool (\<not> (a = 0 \<and> b = 0))), w3)))))"
| "start (Exec argv) str mut w = Exec_start argv str w"
| "start (Echo var) str mut w = Echo_start var str w"
| "start (Read name) str mut w = Read_start name str mut w"
| "start (File path mode) str mut w = File_start path mode str w"
| "start True' str mut w = True_start str w"
| "start False' str mut w = False_start str w"

definition run :: "subprocess \<Rightarrow> bool \<Rightarrow> world \<Rightarrow> (error + int) \<times> world" where
  "run sub mut w = wait_started (start sub Streams_default mut w)"

text \<open>
  \<^verbatim>\<open>int run(const script &scr, Environment &env) {
      for (const subprocess &sub : scr) { int r = run(sub, env); if (r != 0) return r; }
      return 0; }\<close>
\<close>

fun run_script :: "subprocess list \<Rightarrow> bool \<Rightarrow> world \<Rightarrow> (error + int) \<times> world" where
  "run_script [] mut w = (Inr 0, w)"
| "run_script (sub # scr) mut w =
     (case run sub mut w of
        (Inl e, w1) \<Rightarrow> (Inl e, w1)
      | (Inr r, w1) \<Rightarrow> if r \<noteq> 0 then (Inr r, w1) else run_script scr mut w1)"

section \<open>Vocabulary of the statements\<close>

text \<open>
  The capability set a flag word declares: the specification speaks of the set of
  descriptor kinds among \<open>Ignore\<close>, \<open>Create\<close> and \<open>Accept\<close>; the code tests single bits.
\<close>

definition capabilities :: "int \<Rightarrow> int set" where
  "capabilities flag = {c \<in> {Ignore, Create, Accept}. flag AND c \<noteq> 0}"

text \<open>The strings joined by single spaces, as the specification describes the output of
  the literal echo.\<close>

fun unwords :: "string list \<Rightarrow> string" where
  "unwords [] = []"
| "unwords [s] = s"
| "unwords (s # t # rest) = s @ space @ unwords (t # rest)"

text \<open>
  A world to evaluate the model in: the environment holds an exported variable \<open>HOME\<close>
  and a variable \<open>TMP\<close> that is not exported, descriptors 0 to 2 are the inherited
  ones, no pipe, file, process or thread exists yet. Every external program writes
  nothing and leaves with status 5; writes take two bytes at a time and reads three.
\<close>

definition world0 :: world where
  "world0 = \<lparr>env = [(''HOME'', (''/root'', True)), (''TMP'', (''/tmp'', False))],
     fdtab = Map.empty, next_fd = 3, fd_limit = 1024, pipes = (\<lambda>p. []), next_pipe = 0,
     files = Map.empty, procs = Map.empty, nprocs = 0, proc_limit = 100, threads = 0,
     joinable = (\<lambda>t. False), errno = 0, wchunk = 2, rchunk = 3,
     programs = (\<lambda>argv envp input. ([], [], 5))\<rparr>"

text \<open>
  For the thread bookkeeping: \<open>thr\<close> is the part of the world that \<open>std::thread\<close> acts
  on, \<open>tids\<close> the threads a handle joins when it is waited for. \<open>thr_frame w w'\<close> says
  that \<open>w'\<close> has all threads of \<open>w\<close>, each as joinable as it was; \<open>started_ok w r\<close> says
  so of the result \<open>r\<close> of a \<open>start\<close> in \<open>w\<close>, and that its handle joins new threads only.
\<close>

definition thr :: "world \<Rightarrow> nat \<times> (nat \<Rightarrow> bool)" where
  "thr w = (threads w, joinable w)"

fun tids :: "runsubprocess \<Rightarrow> nat set" where
  "tids (RunPipe lhs rhs) = tids lhs \<union> tids rhs"
| "tids (RunExec pid streams) = {}"
| "tids (RunThread tid ret streams) = {tid}"
| "tids (RunEmpty streams ret) = {}"

definition thr_frame :: "world \<Rightarrow> world \<Rightarrow> bool" where
  "thr_frame w w' \<longleftrightarrow> threads w \<le> threads w' \<and> (\<forall>t < threads w. joinable w' t = joinable w t)"

definition started_ok :: "world \<Rightarrow> (error + runsubprocess) \<times> world \<Rightarrow> bool" where
  "started_ok w r \<longleftrightarrow>
     thr_frame w (snd r) \<and> (\<forall>p. fst r = Inr p \<longrightarrow> (\<forall>t \<in> tids p. threads w \<le> t))"

section \<open>Evaluation and basic facts\<close>

lemmas eval_defs = run_def wait_started_def Exec_start_def Echo_start_def Read_start_def
  File_start_def True_start_def False_start_def check_streams_def check_stream_def
  StreamFlags_default_def Streams_default_def open_pipe_def close_pipe_def os_pipe2_def
  os_close_def os_fork_def os_waitid_def os_read_all_def os_write_all_def Exec_child_def
  thread_create_def thread_join_def RunThread_done_def const_defs Let_def

lemmas loop_defs = Echo_while.simps Read_while.simps Echo_worker_def Read_worker_def os_write_def
  os_read_def os_open_def File_flags_def File_defs O_defs file_content_def space_def newline_def
  remove_trailing_newline_def capabilities_def

lemma capabilities_iff:
  "Ignore \<in> capabilities flag \<longleftrightarrow> flag AND Ignore \<noteq> 0"
  "Create \<in> capabilities flag \<longleftrightarrow> flag AND Create \<noteq> 0"
  "Accept \<in> capabilities flag \<longleftrightarrow> flag AND Accept \<noteq> 0"
  by (simp_all add: capabilities_def)

lemma check_streams_None_iff:
  "check_streams sub str = None \<longleftrightarrow>
     check_stream (s_in str) (f_in (get_flags sub)) \<and>
     check_stream (s_out str) (f_out (get_flags sub)) \<and>
     check_stream (s_err str) (f_err (get_flags sub))"
  by (simp add: check_streams_def Let_def)

lemma check_streams_Some:
  "check_streams sub str = Some e \<Longrightarrow> \<exists>m. e = invalid_argument m"
  by (auto simp: check_streams_def Let_def split: if_splits)

lemma start_check_fails:
  assumes "check_streams sub str = Some e"
  shows "\<exists>m. start sub str mut w = (Inl (invalid_argument m), w)"
  using assms check_streams_Some[OF assms]
  by (cases sub)
     (auto simp: Exec_start_def Echo_start_def Read_start_def File_start_def True_start_def
        False_start_def)

lemma envp_filter: "envp e = map (\<lambda>el. fst (snd el)) (filter (\<lambda>el. snd (snd el)) e)"
  by (induction e) auto

lemma check_default:
  "check_streams (And l r) Streams_default = None" "check_streams (Or l r) Streams_default = None"
  "check_streams True' Streams_default = None" "check_streams False' Streams_default = None"
  "check_streams (Exec argv) Streams_default = None"
  by (simp_all add: check_streams_def check_stream_def StreamFlags_default_def Streams_default_def const_defs)

section \<open>Threads stay joinable until their handle is waited for\<close>

text \<open>
  No call of the operating system other than the creation and the joining of a thread
  touches \<open>threads\<close> and \<open>joinable\<close>; \<open>start\<close> creates threads with new identifiers only,
  and \<open>wait\<close> joins the threads of its handle only. So whatever a child of \<open>And\<close> or \<open>Or\<close>
  does, the worker that runs it is still joinable afterwards.
\<close>

lemma thr_os_close: "thr (os_close fd w) = thr w"
  by (simp add: os_close_def thr_def split: option.splits)

lemma thr_close_pipe: "thr (close_pipe fd w) = thr w"
  by (simp add: close_pipe_def thr_os_close)

lemma thr_os_pipe2: "os_pipe2 w = (r, w') \<Longrightarrow> thr w' = thr w"
  by (auto simp: os_pipe2_def thr_def Let_def split: if_splits)

lemma thr_os_write: "os_write fd bytes w = (r, w') \<Longrightarrow> thr w' = thr w"
  by (auto simp: os_write_def thr_def Let_def split: option.splits fdobj.splits if_splits)

lemma thr_os_read: "os_read fd n w = (r, bs, w') \<Longrightarrow> thr w' = thr w"
  by (auto simp: os_read_def thr_def Let_def split: option.splits fdobj.splits if_splits)

lemma thr_os_open: "os_open path flags w = (r, w') \<Longrightarrow> thr w' = thr w"
  by (auto simp: os_open_def thr_def Let_def split: if_splits)

lemma thr_os_read_all: "os_read_all fd w = (bs, w') \<Longrightarrow> thr w' = thr w"
  by (auto simp: os_read_all_def thr_def Let_def split: option.splits fdobj.splits if_splits)

lemma thr_os_write_all: "thr (os_write_all fd bytes w) = thr w"
  by (auto simp: os_write_all_def thr_def Let_def split: option.splits fdobj.splits if_splits)

lemma thr_os_fork: "os_fork w = (r, w') \<Longrightarrow> thr w' = thr w"
  by (auto simp: os_fork_def thr_def split: if_splits)

lemma thr_os_waitid: "os_waitid pid w = (r, w') \<Longrightarrow> thr w' = thr w"
  by (auto simp: os_waitid_def thr_def split: option.splits if_splits)

lemma thr_open_pipe: "open_pipe str fds input w = (r, w') \<Longrightarrow> thr w' = thr w"
  by (auto simp: open_pipe_def split: if_splits prod.splits option.splits dest: thr_os_pipe2)

lemma thr_Exec_child: "Exec_child fds argv w = (p, w') \<Longrightarrow> thr w' = thr w"
  by (auto simp: Exec_child_def Let_def thr_os_write_all split: prod.splits sum.splits if_splits dest: thr_os_read_all)

lemma thr_procs_update: "thr (w\<lparr>procs := x\<rparr>) = thr w"
  by (simp add: thr_def)

lemma thr_env_update: "thr (w\<lparr>env := x\<rparr>) = thr w"
  by (simp add: thr_def)

lemma thr_Exec_start: "Exec_start argv str w = (r, w') \<Longrightarrow> thr w' = thr w"
  by (auto simp: Exec_start_def thr_close_pipe thr_procs_update split: option.splits prod.splits sum.splits if_splits
      dest!: thr_open_pipe thr_os_fork thr_Exec_child)

lemma thr_Echo_while: "Echo_while fd str w = (r, w') \<Longrightarrow> thr w' = thr w"
proof (induction fd str w rule: Echo_while.induct)
  case (1 fd str w)
  obtain ret w1 where ow: "os_write fd str w = (ret, w1)" by force
  show ?case
  proof (cases "ret < 0 \<or> nat ret = length str")
    case True
    with "1.prems" ow thr_os_write[OF ow] show ?thesis
      by (subst (asm) Echo_while.simps) (auto split: if_splits)
  next
    case False
    with "1.prems" ow have "Echo_while fd (drop (nat ret) str) w1 = (r, w')"
      by (subst (asm) Echo_while.simps) simp
    with "1.IH"[OF ow[symmetric]] False have "thr w' = thr w1" by auto
    with thr_os_write[OF ow] show ?thesis by simp
  qed
qed

lemma thr_Echo_for: "Echo_for fd var i n w = (r, w') \<Longrightarrow> thr w' = thr w"
proof (induction var arbitrary: i w)
  case Nil
  then show ?case by simp
next
  case (Cons gt rest)
  show ?case
  proof (cases "get gt (env w)")
    case (Inl e)
    with Cons.prems show ?thesis by simp
  next
    case (Inr str)
    obtain ok w1 where ew: "Echo_while fd str w = (ok, w1)" by force
    note t1 = thr_Echo_while[OF ew]
    obtain r2 w2 where ow: "os_write fd space w1 = (r2, w2)" by force
    note t2 = thr_os_write[OF ow]
    from Cons.prems Inr ew ow t1 t2 Cons.IH show ?thesis
      by (cases ok) (auto split: if_splits)
  qed
qed

lemma thr_Echo_worker: "Echo_worker fd var ret w = (r, w') \<Longrightarrow> thr w' = thr w"
  by (auto simp: Echo_worker_def thr_os_close split: prod.splits sum.splits bool.splits
      dest!: thr_Echo_for thr_os_write)

lemma thr_Read_while: "Read_while fd out w = (r, w') \<Longrightarrow> thr w' = thr w"
proof (induction fd out w rule: Read_while.induct)
  case (1 fd out w)
  obtain count buffer w1 where ow: "os_read fd 1000 w = (count, buffer, w1)"
    by (metis prod_cases3)
  show ?case
  proof (cases "count < 0 \<or> count = 0")
    case True
    with "1.prems" ow thr_os_read[OF ow] show ?thesis
      by (subst (asm) Read_while.simps) (auto split: if_splits)
  next
    case False
    with "1.prems" ow have "Read_while fd (out @ buffer) w1 = (r, w')"
      by (subst (asm) Read_while.simps) simp
    with "1.IH"[OF ow[symmetric] refl] False have "thr w' = thr w1" by auto
    with thr_os_read[OF ow] show ?thesis by simp
  qed
qed

lemma thr_Read_worker: "Read_worker fd name ret w = (r, w') \<Longrightarrow> thr w' = thr w"
  by (auto simp: Read_worker_def Let_def thr_os_close thr_env_update split: prod.splits sum.splits
      dest!: thr_Read_while)


lemma thr_frame_refl: "thr_frame w w"
  by (simp add: thr_frame_def)

lemma thr_frame_trans: "thr_frame w w1 \<Longrightarrow> thr_frame w1 w2 \<Longrightarrow> thr_frame w w2"
  by (auto simp: thr_frame_def)

lemma thr_frame_eq: "thr w' = thr w \<Longrightarrow> thr_frame w w'"
  by (simp add: thr_frame_def thr_def)

lemma thr_frame_create: "thread_create w = (tid, w1) \<Longrightarrow> tid = threads w \<and> thr_frame w w1"
  by (auto simp: thread_create_def thr_frame_def)

lemma wait_frame:
  "wait p w = (r, w') \<Longrightarrow> threads w' = threads w \<and> (\<forall>t. t \<notin> tids p \<longrightarrow> joinable w' t = joinable w t)"
proof (induction p arbitrary: w r w')
  case (RunPipe lhs rhs)
  obtain r1 w1 where l: "wait lhs w = (r1, w1)" by force
  obtain r2 w2 where rr: "wait rhs w1 = (r2, w2)" by force
  have "w' = w1 \<or> w' = w2"
    using RunPipe.prems l rr by (cases r1; cases r2) auto
  with RunPipe.IH(1)[OF l] RunPipe.IH(2)[OF rr] show ?case
    by auto
next
  case (RunExec pid streams)
  then show ?case
    by (auto simp: thr_def split: prod.splits option.splits dest!: thr_os_waitid)
next
  case (RunThread tid ret streams)
  then show ?case
    by (auto simp: thread_join_def split: if_splits)
next
  case (RunEmpty streams ret)
  then show ?case by simp
qed

lemma wait_started_frame:
  assumes "started_ok w r" "wait_started r = (x, w')"
  shows "thr_frame w w'"
proof (cases r)
  case (Pair a w1)
  show ?thesis
  proof (cases a)
    case (Inl e)
    with Pair assms show ?thesis by (simp add: wait_started_def started_ok_def)
  next
    case (Inr p)
    with Pair assms have w: "wait p w1 = (x, w')" and f: "thr_frame w w1"
      and t: "\<forall>t \<in> tids p. threads w \<le> t"
      by (simp_all add: wait_started_def started_ok_def)
    from wait_frame[OF w] have a: "threads w' = threads w1"
      and b: "\<And>t. t \<notin> tids p \<Longrightarrow> joinable w' t = joinable w1 t" by blast+
    from f have c: "threads w \<le> threads w1"
      and d: "\<And>t. t < threads w \<Longrightarrow> joinable w1 t = joinable w t"
      by (simp_all add: thr_frame_def)
    have "joinable w' u = joinable w u" if "u < threads w" for u
    proof -
      from that t have "u \<notin> tids p" by auto
      with b d that show ?thesis by simp
    qed
    with a c show ?thesis by (simp add: thr_frame_def)
  qed
qed

lemma RunThread_done_ok:
  assumes "thr_frame w (snd x)" "threads w \<le> tid"
  shows "started_ok w (RunThread_done tid str x)"
  using assms by (cases x) (auto simp: RunThread_done_def started_ok_def split: sum.splits)


lemma started_ok_error: "started_ok w (Inl e, w)"
  by (simp add: started_ok_def thr_frame_refl)

lemma started_ok_Exec: "started_ok w (Exec_start argv str w)"
proof -
  obtain r w' where e: "Exec_start argv str w = (r, w')" by force
  have "tids p = {}" if "r = Inr p" for p
    using e that
    by (auto simp: Exec_start_def split: option.splits prod.splits sum.splits if_splits)
  with thr_Exec_start[OF e] e show ?thesis
    by (simp add: started_ok_def thr_frame_eq)
qed

lemma started_ok_File: "started_ok w (File_start path mode str w)"
  by (auto simp: File_start_def started_ok_def thr_frame_refl thr_frame_eq
      split: option.splits sum.splits prod.splits dest!: thr_os_open)

lemma started_ok_True: "started_ok w (True_start str w)"
  by (auto simp: True_start_def started_ok_def thr_frame_refl split: option.splits)

lemma started_ok_False: "started_ok w (False_start str w)"
  by (auto simp: False_start_def started_ok_def thr_frame_refl split: option.splits)

lemma started_ok_worker:
  assumes op: "open_pipe s fds input w = (Inr x, w1)"
    and tc: "thread_create w1 = (tid, w2)"
    and wk: "thr (snd r) = thr w2"
  shows "started_ok w (RunThread_done tid str r)"
proof -
  from thr_open_pipe[OF op] have a: "thr w1 = thr w" .
  from thr_frame_create[OF tc] have b: "tid = threads w1" "thr_frame w1 w2" by simp_all
  from a have c: "thr_frame w w1" by (rule thr_frame_eq)
  from wk have "thr_frame w2 (snd r)" by (rule thr_frame_eq)
  with b c have "thr_frame w (snd r)" by (blast intro: thr_frame_trans)
  moreover from a b have "threads w \<le> tid" by (simp add: thr_def)
  ultimately show ?thesis by (rule RunThread_done_ok)
qed

lemma started_ok_open_pipe_error:
  "open_pipe s fds input w = (Inl e, w1) \<Longrightarrow> started_ok w (Inl e, w1)"
  by (auto simp: started_ok_def dest!: thr_open_pipe intro: thr_frame_eq)

lemma started_ok_Echo: "started_ok w (Echo_start var str w)"
proof (cases "check_streams (Echo var) str")
  case (Some e)
  then show ?thesis by (simp add: Echo_start_def started_ok_error)
next
  case None
  obtain r1 w1 where op: "open_pipe (s_out str) (Streams_None, Streams_None) False w = (r1, w1)"
    by force
  show ?thesis
  proof (cases r1)
    case (Inl e)
    with None op started_ok_open_pipe_error[of "s_out str" _ False w e w1] show ?thesis
      by (simp add: Echo_start_def)
  next
    case (Inr x)
    obtain str_out fds where x: "x = (str_out, fds)" by (cases x) auto
    obtain tid w2 where tc: "thread_create w1 = (tid, w2)" by force
    obtain r w3 where wk: "Echo_worker (snd fds) var 0 w2 = (r, w3)" by force
    from thr_Echo_worker[OF wk] have "thr (snd (r, w3)) = thr w2" by simp
    from started_ok_worker[OF op[unfolded Inr] tc this]
    show ?thesis using None op Inr x tc wk by (simp add: Echo_start_def)
  qed
qed

lemma started_ok_Read: "started_ok w (Read_start name str mut w)"
proof (cases "mut \<and> check_streams (Read name) str = None")
  case False
  then show ?thesis by (auto simp: Read_start_def started_ok_error)
next
  case True
  obtain r1 w1 where op: "open_pipe (s_in str) (Streams_None, Streams_None) True w = (r1, w1)"
    by force
  show ?thesis
  proof (cases r1)
    case (Inl e)
    with True op started_ok_open_pipe_error[of "s_in str" _ True w e w1] show ?thesis
      by (simp add: Read_start_def)
  next
    case (Inr x)
    obtain str_in fds where x: "x = (str_in, fds)" by (cases x) auto
    obtain tid w2 where tc: "thread_create w1 = (tid, w2)" by force
    obtain r w3 where wk: "Read_worker (fst fds) name 0 w2 = (r, w3)" by force
    from thr_Read_worker[OF wk] have "thr (snd (r, w3)) = thr w2" by simp
    from started_ok_worker[OF op[unfolded Inr] tc this]
    show ?thesis using True op Inr x tc wk by (simp add: Read_start_def)
  qed
qed


lemma started_ok_pipe:
  assumes "started_ok w (Inr p, w1)" "started_ok w1 (r2, w2)"
  shows "started_ok w (case r2 of Inl e \<Rightarrow> (Inl e, w2) | Inr q \<Rightarrow> (Inr (RunPipe p q), w2))"
    and "started_ok w (case r2 of Inl e \<Rightarrow> (Inl e, w2) | Inr q \<Rightarrow> (Inr (RunPipe q p), w2))"
proof -
  from assms have a: "threads w \<le> threads w1" "threads w1 \<le> threads w2"
    and b: "\<And>t. t < threads w \<Longrightarrow> joinable w2 t = joinable w t"
    and c: "\<And>t. t \<in> tids p \<Longrightarrow> threads w \<le> t"
    and d: "\<And>q t. r2 = Inr q \<Longrightarrow> t \<in> tids q \<Longrightarrow> threads w \<le> t"
    by (fastforce simp: started_ok_def thr_frame_def)+
  from a b have f: "thr_frame w w2" by (simp add: thr_frame_def)
  show "started_ok w (case r2 of Inl e \<Rightarrow> (Inl e, w2) | Inr q \<Rightarrow> (Inr (RunPipe p q), w2))"
    using f c d by (cases r2) (auto simp: started_ok_def)
  show "started_ok w (case r2 of Inl e \<Rightarrow> (Inl e, w2) | Inr q \<Rightarrow> (Inr (RunPipe q p), w2))"
    using f c d by (cases r2) (auto simp: started_ok_def)
qed

lemma started_ok_first_error:
  "started_ok w (Inl e, w1) \<Longrightarrow> started_ok w (Inl e', w1)"
  by (simp add: started_ok_def)

lemma pipe_seq_eq:
  "(case (r2, w2) of (Inl e, w2) \<Rightarrow> (Inl e, w2) | (Inr q, w2) \<Rightarrow> (Inr (f q), w2))
     = (case r2 of Inl e \<Rightarrow> Inl e | Inr q \<Rightarrow> Inr (f q), w2)"
  by (cases r2) simp_all

lemma start_pipe_step:
  assumes l: "started_ok w (start lhs s1 mut w)"
    and r: "\<And>s w1. started_ok w1 (start rhs s mut w1)"
  shows "started_ok w
     (case start lhs s1 mut w of
        (Inl e, w1) \<Rightarrow> (Inl e, w1)
      | (Inr lhs_p, w1) \<Rightarrow>
          (case start rhs (g lhs_p) mut w1 of
             (Inl e, w2) \<Rightarrow> (Inl e, w2)
           | (Inr rhs_p, w2) \<Rightarrow> (Inr (RunPipe lhs_p rhs_p), w2)))"
    and "started_ok w
     (case start lhs s1 mut w of
        (Inl e, w1) \<Rightarrow> (Inl e, w1)
      | (Inr lhs_p, w1) \<Rightarrow>
          (case start rhs (g lhs_p) mut w1 of
             (Inl e, w2) \<Rightarrow> (Inl e, w2)
           | (Inr rhs_p, w2) \<Rightarrow> (Inr (RunPipe rhs_p lhs_p), w2)))"
proof -
  obtain r1 w1 where s1: "start lhs s1 mut w = (r1, w1)" by force
  show "started_ok w
     (case start lhs s1 mut w of
        (Inl e, w1) \<Rightarrow> (Inl e, w1)
      | (Inr lhs_p, w1) \<Rightarrow>
          (case start rhs (g lhs_p) mut w1 of
             (Inl e, w2) \<Rightarrow> (Inl e, w2)
           | (Inr rhs_p, w2) \<Rightarrow> (Inr (RunPipe lhs_p rhs_p), w2)))"
  proof (cases r1)
    case (Inl e)
    with l s1 show ?thesis by simp
  next
    case (Inr p)
    obtain r2 w2 where s2: "start rhs (g p) mut w1 = (r2, w2)" by force
    from l s1 Inr have a: "started_ok w (Inr p, w1)" by simp
    from r[of w1 "g p"] s2 have b: "started_ok w1 (r2, w2)" by simp
    from started_ok_pipe(1)[OF a b] s1 Inr s2 show ?thesis
      by simp
  qed
  show "started_ok w
     (case start lhs s1 mut w of
        (Inl e, w1) \<Rightarrow> (Inl e, w1)
      | (Inr lhs_p, w1) \<Rightarrow>
          (case start rhs (g lhs_p) mut w1 of
             (Inl e, w2) \<Rightarrow> (Inl e, w2)
           | (Inr rhs_p, w2) \<Rightarrow> (Inr (RunPipe rhs_p lhs_p), w2)))"
  proof (cases r1)
    case (Inl e)
    with l s1 show ?thesis by simp
  next
    case (Inr p)
    obtain r2 w2 where s2: "start rhs (g p) mut w1 = (r2, w2)" by force
    from l s1 Inr have a: "started_ok w (Inr p, w1)" by simp
    from r[of w1 "g p"] s2 have b: "started_ok w1 (r2, w2)" by simp
    from started_ok_pipe(2)[OF a b] s1 Inr s2 show ?thesis
      by simp
  qed
qed

lemma start_logic_step:
  assumes l: "\<And>w1. started_ok w1 (start lhs Streams_default mut w1)"
    and r: "\<And>w1. started_ok w1 (start rhs Streams_default mut w1)"
    and tc: "thread_create w = (tid, w1)"
  shows "started_ok w (RunThread_done tid str
           (case wait_started (start lhs Streams_default mut w1) of
              (Inl e, w2) \<Rightarrow> (Inl e, w2)
            | (Inr a, w2) \<Rightarrow>
                if c a then (Inr (k a), w2)
                else
                  (case wait_started (start rhs Streams_default mut w2) of
                     (Inl e, w3) \<Rightarrow> (Inl e, w3)
                   | (Inr b, w3) \<Rightarrow> (Inr (h a b), w3))))"
proof -
  obtain x w2 where ls: "wait_started (start lhs Streams_default mut w1) = (x, w2)" by force
  obtain y w3 where rs: "wait_started (start rhs Streams_default mut w2) = (y, w3)" by force
  from thr_frame_create[OF tc] have t: "tid = threads w" "thr_frame w w1" by simp_all
  from wait_started_frame[OF l ls] have f12: "thr_frame w1 w2" .
  from wait_started_frame[OF r rs] have f23: "thr_frame w2 w3" .
  from t f12 have f02: "thr_frame w w2" by (blast intro: thr_frame_trans)
  with f23 have f03: "thr_frame w w3" by (blast intro: thr_frame_trans)
  let ?res = "case wait_started (start lhs Streams_default mut w1) of
              (Inl e, w2) \<Rightarrow> (Inl e, w2)
            | (Inr a, w2) \<Rightarrow>
                if c a then (Inr (k a), w2)
                else
                  (case wait_started (start rhs Streams_default mut w2) of
                     (Inl e, w3) \<Rightarrow> (Inl e, w3)
                   | (Inr b, w3) \<Rightarrow> (Inr (h a b), w3))"
  have "snd ?res = w2 \<or> snd ?res = w3"
    using ls rs by (cases x; cases y) auto
  with f02 f03 have "thr_frame w (snd ?res)" by auto
  moreover from t have "threads w \<le> tid" by simp
  ultimately show ?thesis by (rule RunThread_done_ok)
qed

lemma start_frame: "started_ok w (start sub str mut w)"
proof (induction sub arbitrary: str w)
  case (Pipe lhs rhs)
  show ?case
  proof (cases "check_streams (Pipe lhs rhs) str")
    case (Some e)
    then show ?thesis by (simp add: started_ok_error)
  next
    case None
    from Pipe.IH(1) Pipe.IH(2) have
      a: "\<And>s1 g w. started_ok w
       (case start lhs s1 mut w of
          (Inl e, w1) \<Rightarrow> (Inl e, w1)
        | (Inr lhs_p, w1) \<Rightarrow>
            (case start rhs (g lhs_p) mut w1 of
               (Inl e, w2) \<Rightarrow> (Inl e, w2)
             | (Inr rhs_p, w2) \<Rightarrow> (Inr (RunPipe lhs_p rhs_p), w2)))"
      by (rule start_pipe_step(1))
    from Pipe.IH(2) Pipe.IH(1) have
      b: "\<And>s1 g w. started_ok w
       (case start rhs s1 mut w of
          (Inl e, w1) \<Rightarrow> (Inl e, w1)
        | (Inr rhs_p, w1) \<Rightarrow>
            (case start lhs (g rhs_p) mut w1 of
               (Inl e, w2) \<Rightarrow> (Inl e, w2)
             | (Inr lhs_p, w2) \<Rightarrow> (Inr (RunPipe lhs_p rhs_p), w2)))"
      by (rule start_pipe_step(2))
    from None show ?thesis
      using a[where w = w and g = "\<lambda>lhs_p. \<lparr>s_in = s_out (get_streams lhs_p), s_out = s_out str, s_err = Streams_None\<rparr>"]
        b[where w = w and g = "\<lambda>rhs_p. \<lparr>s_in = s_in str, s_out = s_in (get_streams rhs_p), s_err = Streams_None\<rparr>"]
      by (simp add: started_ok_error)
  qed
next
  case (Or lhs rhs)
  show ?case
  proof (cases "check_streams (Or lhs rhs) str")
    case (Some e)
    then show ?thesis by (simp add: started_ok_error)
  next
    case None
    obtain tid w1 where tc: "thread_create w = (tid, w1)" by force
    from start_logic_step[OF Or.IH(1) Or.IH(2) tc, of str "\<lambda>a. a = 0" "\<lambda>a. of_bool (\<not> True)"
        "\<lambda>a b. of_bool (\<not> (a = 0 \<or> b = 0))"] None tc
    show ?thesis by simp
  qed
next
  case (And lhs rhs)
  show ?case
  proof (cases "check_streams (And lhs rhs) str")
    case (Some e)
    then show ?thesis by (simp add: started_ok_error)
  next
    case None
    obtain tid w1 where tc: "thread_create w = (tid, w1)" by force
    from start_logic_step[OF And.IH(1) And.IH(2) tc, of str "\<lambda>a. a \<noteq> 0" "\<lambda>a. of_bool (\<not> False)"
        "\<lambda>a b. of_bool (\<not> (a = 0 \<and> b = 0))"] None tc
    show ?thesis by simp
  qed
qed (simp_all add: started_ok_Exec started_ok_Echo started_ok_Read started_ok_File
       started_ok_True started_ok_False)

lemma run_frame:
  assumes "run sub mut w = (x, w')"
  shows "threads w \<le> threads w'" and "t < threads w \<Longrightarrow> joinable w' t = joinable w t"
  using wait_started_frame[OF start_frame, where w = w and sub1 = sub and str1 = Streams_default and mut1 = mut and x = x and w' = w'] assms
  by (simp_all add: run_def thr_frame_def)

lemma worker_joinable:
  assumes "run sub mut (snd (thread_create w)) = (x, w2)"
  shows "joinable w2 (threads w)"
  using run_frame(2)[OF assms, of "threads w"] by (simp add: thread_create_def)

section \<open>Writing to and reading from a pipe\<close>

lemma os_write_pipe:
  "fdtab w fd = Some (PipeWrite p) \<Longrightarrow>
   os_write fd bytes w =
     (int (min (length bytes) (max 1 (wchunk w))),
      w\<lparr>pipes := (pipes w)(p := pipes w p @ take (min (length bytes) (max 1 (wchunk w))) bytes)\<rparr>)"
  by (simp add: os_write_def Let_def)

lemma Echo_while_pipe:
  "fdtab w fd = Some (PipeWrite p) \<Longrightarrow>
   Echo_while fd str w = (True, w\<lparr>pipes := (pipes w)(p := pipes w p @ str)\<rparr>)"
proof (induction fd str w rule: Echo_while.induct)
  case (1 fd str w)
  define k where "k = min (length str) (max 1 (wchunk w))"
  define w1 where "w1 = w\<lparr>pipes := (pipes w)(p := pipes w p @ take k str)\<rparr>"
  have ow: "os_write fd str w = (int k, w1)"
    using os_write_pipe[OF "1.prems", of str] by (simp add: k_def w1_def)
  show ?case
  proof (cases "k = length str")
    case True
    with ow show ?thesis
      by (subst Echo_while.simps) (simp add: w1_def)
  next
    case False
    have fd1: "fdtab w1 fd = Some (PipeWrite p)" using "1.prems" by (simp add: w1_def)
    have "Echo_while fd (drop (nat (int k)) str) w1 =
        (True, w1\<lparr>pipes := (pipes w1)(p := pipes w1 p @ drop (nat (int k)) str)\<rparr>)"
      by (rule "1.IH"[OF ow[symmetric] _ _ fd1]) (use False in simp_all)
    then have ih: "Echo_while fd (drop k str) w1 =
        (True, w1\<lparr>pipes := (pipes w1)(p := pipes w1 p @ drop k str)\<rparr>)"
      by (simp only: nat_int)
    have eq: "w1\<lparr>pipes := (pipes w1)(p := pipes w1 p @ drop k str)\<rparr>
        = w\<lparr>pipes := (pipes w)(p := pipes w p @ str)\<rparr>"
      by (simp add: w1_def)
    have "Echo_while fd str w = Echo_while fd (drop k str) w1"
      using ow False by (subst Echo_while.simps) simp
    with ih eq show ?thesis by (simp only:)
  qed
qed

lemma os_write_space_pipe:
  "fdtab w fd = Some (PipeWrite p) \<Longrightarrow>
   os_write fd space w = (1, w\<lparr>pipes := (pipes w)(p := pipes w p @ space)\<rparr>)"
  by (simp add: os_write_pipe space_def)

lemma os_write_newline_pipe:
  "fdtab w fd = Some (PipeWrite p) \<Longrightarrow>
   os_write fd newline w = (1, w\<lparr>pipes := (pipes w)(p := pipes w p @ newline)\<rparr>)"
  by (simp add: os_write_pipe newline_def)

lemma Echo_for_pipe:
  "fdtab w fd = Some (PipeWrite p) \<Longrightarrow> i + length strs = n \<Longrightarrow>
   Echo_for fd (map GettableString strs) i n w =
     (Inr True, w\<lparr>pipes := (pipes w)(p := pipes w p @ unwords strs)\<rparr>)"
proof (induction strs arbitrary: i w)
  case Nil
  then show ?case by simp
next
  case (Cons s rest)
  define w1 where "w1 = w\<lparr>pipes := (pipes w)(p := pipes w p @ s)\<rparr>"
  have ew: "Echo_while fd s w = (True, w1)"
    using Echo_while_pipe[OF Cons.prems(1)] by (simp add: w1_def)
  have fd1: "fdtab w1 fd = Some (PipeWrite p)" using Cons.prems(1) by (simp add: w1_def)
  show ?case
  proof (cases rest)
    case Nil
    have "Echo_for fd (map GettableString (s # rest)) i n w = (Inr True, w1)"
      using Nil Cons.prems(2) by (simp add: ew)
    moreover have "w1 = w\<lparr>pipes := (pipes w)(p := pipes w p @ unwords (s # rest))\<rparr>"
      using Nil by (simp add: w1_def)
    ultimately show ?thesis by (simp only:)
  next
    case (Cons t rest')
    define w2 where "w2 = w1\<lparr>pipes := (pipes w1)(p := pipes w1 p @ space)\<rparr>"
    have sp: "os_write fd space w1 = (1, w2)"
      using os_write_space_pipe[OF fd1] by (simp add: w2_def)
    have fd2: "fdtab w2 fd = Some (PipeWrite p)" using fd1 by (simp add: w2_def)
    from Cons.prems(2) Cons have n: "Suc i \<noteq> n" "Suc i + length rest = n" by simp_all
    from Cons.IH[OF fd2 n(2)]
    have ih: "Echo_for fd (map GettableString rest) (Suc i) n w2 =
        (Inr True, w2\<lparr>pipes := (pipes w2)(p := pipes w2 p @ unwords rest)\<rparr>)" .
    have eq: "w2\<lparr>pipes := (pipes w2)(p := pipes w2 p @ unwords rest)\<rparr>
        = w\<lparr>pipes := (pipes w)(p := pipes w p @ unwords (s # rest))\<rparr>"
      using Cons by (simp add: w2_def w1_def)
    have "Echo_for fd (map GettableString (s # rest)) i n w =
        Echo_for fd (map GettableString rest) (Suc i) n w2"
      using n(1) by (simp add: ew sp)
    with ih eq show ?thesis by (simp only:)
  qed
qed

lemma Read_while_pipe:
  "fdtab w fd = Some (PipeRead p) \<Longrightarrow>
   Read_while fd out w = (Inr (out @ pipes w p), w\<lparr>pipes := (pipes w)(p := [])\<rparr>)"
proof (induction fd out w rule: Read_while.induct)
  case (1 fd out w)
  define k where "k = min (min 1000 (max 1 (rchunk w))) (length (pipes w p))"
  define w1 where "w1 = w\<lparr>pipes := (pipes w)(p := drop k (pipes w p))\<rparr>"
  have orr: "os_read fd 1000 w = (int k, take k (pipes w p), w1)"
    using "1.prems" by (simp add: os_read_def Let_def k_def w1_def)
  show ?case
  proof (cases "k = 0")
    case True
    then have e: "pipes w p = []" by (auto simp: k_def min_def max_def split: if_splits)
    then have "w1 = w\<lparr>pipes := (pipes w)(p := [])\<rparr>" by (simp add: w1_def)
    with orr True e show ?thesis
      by (subst Read_while.simps) simp
  next
    case False
    have fd1: "fdtab w1 fd = Some (PipeRead p)" using "1.prems" by (simp add: w1_def)
    have ih: "Read_while fd (out @ take k (pipes w p)) w1 =
        (Inr ((out @ take k (pipes w p)) @ pipes w1 p), w1\<lparr>pipes := (pipes w1)(p := [])\<rparr>)"
      by (rule "1.IH"[OF orr[symmetric] refl _ _ fd1]) (use False in simp_all)
    have eq1: "w1\<lparr>pipes := (pipes w1)(p := [])\<rparr> = w\<lparr>pipes := (pipes w)(p := [])\<rparr>"
      by (simp add: w1_def)
    have eq2: "(out @ take k (pipes w p)) @ pipes w1 p = out @ pipes w p"
      by (simp add: w1_def)
    have "Read_while fd out w = Read_while fd (out @ take k (pipes w p)) w1"
      using orr False by (subst Read_while.simps) simp
    with ih eq1 eq2 show ?thesis by (simp only:)
  qed
qed

lemma remove_trailing_newline_append: "remove_trailing_newline (s @ newline) = s"
  by (simp add: remove_trailing_newline_def newline_def)

lemma map_of_map_assign: "map_of (map_assign k v e) k = Some v"
  by (induction e) auto

lemma map_at_map_assign: "map_at (map_assign k v e) k = Inr v"
  by (simp add: map_at_def map_of_map_assign)

lemma check_stream_simps:
  "check_stream Streams_None Ignore" "check_stream Streams_New (Create OR Accept)"
  "s \<ge> 0 \<Longrightarrow> check_stream s (Create OR Accept)"
  by (simp_all add: check_stream_def const_defs)

lemma Echo_worker_pipe:
  assumes "fdtab w fd = Some (PipeWrite p)"
  shows "Echo_worker fd (map GettableString strs) 0 w =
    (Inr 0, os_close fd (w\<lparr>pipes := (pipes w)(p := pipes w p @ unwords strs @ newline)\<rparr>))"
proof -
  define w1 where "w1 = w\<lparr>pipes := (pipes w)(p := pipes w p @ unwords strs)\<rparr>"
  have a: "Echo_for fd (map GettableString strs) 0 (length (map GettableString strs)) w = (Inr True, w1)"
    using Echo_for_pipe[OF assms, of 0 strs "length strs"] by (simp add: w1_def)
  have fd1: "fdtab w1 fd = Some (PipeWrite p)" using assms by (simp add: w1_def)
  have b: "os_write fd newline w1 = (1, w1\<lparr>pipes := (pipes w1)(p := pipes w1 p @ newline)\<rparr>)"
    by (rule os_write_newline_pipe[OF fd1])
  have c: "w1\<lparr>pipes := (pipes w1)(p := pipes w1 p @ newline)\<rparr>
      = w\<lparr>pipes := (pipes w)(p := pipes w p @ unwords strs @ newline)\<rparr>"
    by (simp add: w1_def)
  show ?thesis
    unfolding Echo_worker_def a by (simp add: b c)
qed

lemma Echo_start_New:
  assumes "next_fd w + 2 \<le> fd_limit w"
  shows "\<exists>w1. Echo_start (map GettableString strs)
            \<lparr>s_in = Streams_None, s_out = Streams_New, s_err = Streams_None\<rparr> w =
          (Inr (RunThread (threads w) 0
             \<lparr>s_in = Streams_None, s_out = int (next_fd w), s_err = Streams_None\<rparr>), w1)
        \<and> fdtab w1 (int (next_fd w)) = Some (PipeRead (next_pipe w))
        \<and> pipes w1 (next_pipe w) = unwords strs @ newline
        \<and> env w1 = env w
        \<and> threads w1 = Suc (threads w)
        \<and> joinable w1 = (joinable w)(threads w := True)"
proof -
  define r where "r = int (next_fd w)"
  define p where "p = next_pipe w"
  define wA where "wA = w\<lparr>fdtab := (fdtab w)(r \<mapsto> PipeRead p, r + 1 \<mapsto> PipeWrite p),
           next_fd := next_fd w + 2, pipes := (pipes w)(p := []), next_pipe := Suc p\<rparr>"
  define wB where "wB = wA\<lparr>threads := Suc (threads wA), joinable := (joinable wA)(threads wA := True)\<rparr>"
  define wC where "wC = os_close (r + 1) (wB\<lparr>pipes := (pipes wB)(p := pipes wB p @ unwords strs @ newline)\<rparr>)"
  have chk: "check_streams (Echo (map GettableString strs))
      \<lparr>s_in = Streams_None, s_out = Streams_New, s_err = Streams_None\<rparr> = None"
    by (simp add: check_streams_def check_stream_simps)
  have op: "open_pipe Streams_New (Streams_None, Streams_None) False w = (Inr (r, (r, r + 1)), wA)"
    using assms by (simp add: open_pipe_def os_pipe2_def Let_def const_defs r_def p_def wA_def)
  have tc: "thread_create wA = (threads w, wB)"
    by (simp add: thread_create_def wB_def wA_def)
  have fdB: "fdtab wB (r + 1) = Some (PipeWrite p)"
    by (simp add: wB_def wA_def)
  have wk: "Echo_worker (r + 1) (map GettableString strs) 0 wB = (Inr 0, wC)"
    unfolding wC_def by (rule Echo_worker_pipe[OF fdB])
  have st: "Echo_start (map GettableString strs)
            \<lparr>s_in = Streams_None, s_out = Streams_New, s_err = Streams_None\<rparr> w =
          (Inr (RunThread (threads w) 0
             \<lparr>s_in = Streams_None, s_out = r, s_err = Streams_None\<rparr>), wC)"
    by (simp add: Echo_start_def chk op tc wk RunThread_done_def)
  have "fdtab wC r = Some (PipeRead p)" "pipes wC p = unwords strs @ newline" "env wC = env w"
    "threads wC = Suc (threads w)" "joinable wC = (joinable w)(threads w := True)"
    by (simp_all add: wC_def os_close_def wB_def wA_def)
  with st show ?thesis unfolding r_def p_def by blast
qed

lemma Read_start_bound:
  assumes "fdtab w fd = Some (PipeRead p)" "0 \<le> fd"
  shows "\<exists>w1. Read_start name \<lparr>s_in = fd, s_out = Streams_None, s_err = Streams_None\<rparr> True w =
          (Inr (RunThread (threads w) 0 \<lparr>s_in = fd, s_out = Streams_None, s_err = Streams_None\<rparr>), w1)
        \<and> env w1 = map_assign name (remove_trailing_newline (pipes w p), False) (env w)
        \<and> threads w1 = Suc (threads w)
        \<and> joinable w1 = (joinable w)(threads w := True)"
proof -
  define wB where "wB = w\<lparr>threads := Suc (threads w), joinable := (joinable w)(threads w := True)\<rparr>"
  define wC where "wC = os_close fd (wB\<lparr>pipes := (pipes wB)(p := [])\<rparr>)"
  define wD where "wD = wC\<lparr>env := map_assign name (remove_trailing_newline (pipes w p), False) (env wC)\<rparr>"
  have chk: "check_streams (Read name) \<lparr>s_in = fd, s_out = Streams_None, s_err = Streams_None\<rparr> = None"
    using assms(2) by (simp add: check_streams_def check_stream_simps)
  have ne: "fd \<noteq> Streams_None" "fd \<noteq> Streams_New" using assms(2) by (simp_all add: const_defs)
  have op: "open_pipe fd (Streams_None, Streams_None) True w = (Inr (fd, (fd, Streams_None)), w)"
    using ne by (simp add: open_pipe_def)
  have tc: "thread_create w = (threads w, wB)"
    by (simp add: thread_create_def wB_def)
  have fdB: "fdtab wB fd = Some (PipeRead p)" using assms(1) by (simp add: wB_def)
  have rw: "Read_while fd [] wB = (Inr ([] @ pipes wB p), wB\<lparr>pipes := (pipes wB)(p := [])\<rparr>)"
    by (rule Read_while_pipe[OF fdB])
  have pB: "pipes wB p = pipes w p" by (simp add: wB_def)
  have wk: "Read_worker fd name 0 wB = (Inr 0, wD)"
    unfolding Read_worker_def rw by (simp add: Let_def wD_def wC_def pB)
  have st: "Read_start name \<lparr>s_in = fd, s_out = Streams_None, s_err = Streams_None\<rparr> True w =
          (Inr (RunThread (threads w) 0 \<lparr>s_in = fd, s_out = Streams_None, s_err = Streams_None\<rparr>), wD)"
    by (simp add: Read_start_def chk op tc wk RunThread_done_def)
  have "env wD = map_assign name (remove_trailing_newline (pipes w p), False) (env w)"
    "threads wD = Suc (threads w)" "joinable wD = (joinable w)(threads w := True)"
    using assms(1) by (simp_all add: wD_def wC_def os_close_def wB_def)
  with st show ?thesis by blast
qed

section \<open>The environment under a const reference\<close>

text \<open>
  Only the worker of \<open>Read::start\<close> assigns to the environment, and the overload for
  \<open>const Environment &\<close> never starts it. So no expression started or run through that
  overload changes the environment.
\<close>

lemma env_os_close: "env (os_close fd w) = env w"
  by (simp add: os_close_def split: option.splits)

lemma env_close_pipe: "env (close_pipe fd w) = env w"
  by (simp add: close_pipe_def env_os_close)

lemma env_os_pipe2: "os_pipe2 w = (r, w') \<Longrightarrow> env w' = env w"
  by (auto simp: os_pipe2_def Let_def split: if_splits)

lemma env_os_write: "os_write fd bytes w = (r, w') \<Longrightarrow> env w' = env w"
  by (auto simp: os_write_def Let_def split: option.splits fdobj.splits if_splits)

lemma env_os_open: "os_open path flags w = (r, w') \<Longrightarrow> env w' = env w"
  by (auto simp: os_open_def Let_def split: if_splits)

lemma env_os_read_all: "os_read_all fd w = (bs, w') \<Longrightarrow> env w' = env w"
  by (auto simp: os_read_all_def Let_def split: option.splits fdobj.splits if_splits)

lemma env_os_write_all: "env (os_write_all fd bytes w) = env w"
  by (auto simp: os_write_all_def Let_def split: option.splits fdobj.splits if_splits)

lemma env_os_fork: "os_fork w = (r, w') \<Longrightarrow> env w' = env w"
  by (auto simp: os_fork_def split: if_splits)

lemma env_os_waitid: "os_waitid pid w = (r, w') \<Longrightarrow> env w' = env w"
  by (auto simp: os_waitid_def split: option.splits if_splits)

lemma env_thread_create: "thread_create w = (tid, w') \<Longrightarrow> env w' = env w"
  by (auto simp: thread_create_def)

lemma env_thread_join: "thread_join tid w = (r, w') \<Longrightarrow> env w' = env w"
  by (auto simp: thread_join_def split: if_splits)

lemma env_open_pipe: "open_pipe str fds input w = (r, w') \<Longrightarrow> env w' = env w"
  by (auto simp: open_pipe_def split: if_splits prod.splits option.splits dest: env_os_pipe2)

lemma env_Exec_child: "Exec_child fds argv w = (p, w') \<Longrightarrow> env w' = env w"
  by (auto simp: Exec_child_def Let_def env_os_write_all split: prod.splits sum.splits if_splits
      dest: env_os_read_all)

lemma env_Exec_start: "Exec_start argv str w = (r, w') \<Longrightarrow> env w' = env w"
  by (auto simp: Exec_start_def env_close_pipe split: option.splits prod.splits sum.splits if_splits
      dest!: env_open_pipe env_os_fork env_Exec_child)

lemma env_Echo_while: "Echo_while fd str w = (r, w') \<Longrightarrow> env w' = env w"
proof (induction fd str w rule: Echo_while.induct)
  case (1 fd str w)
  obtain ret w1 where ow: "os_write fd str w = (ret, w1)" by force
  show ?case
  proof (cases "ret < 0 \<or> nat ret = length str")
    case True
    with "1.prems" ow env_os_write[OF ow] show ?thesis
      by (subst (asm) Echo_while.simps) (auto split: if_splits)
  next
    case False
    with "1.prems" ow have "Echo_while fd (drop (nat ret) str) w1 = (r, w')"
      by (subst (asm) Echo_while.simps) simp
    with "1.IH"[OF ow[symmetric]] False have "env w' = env w1" by auto
    with env_os_write[OF ow] show ?thesis by simp
  qed
qed

lemma env_Echo_for: "Echo_for fd var i n w = (r, w') \<Longrightarrow> env w' = env w"
proof (induction var arbitrary: i w)
  case Nil
  then show ?case by simp
next
  case (Cons gt rest)
  show ?case
  proof (cases "get gt (env w)")
    case (Inl e)
    with Cons.prems show ?thesis by simp
  next
    case (Inr str)
    obtain ok w1 where ew: "Echo_while fd str w = (ok, w1)" by force
    note t1 = env_Echo_while[OF ew]
    obtain r2 w2 where ow: "os_write fd space w1 = (r2, w2)" by force
    note t2 = env_os_write[OF ow]
    from Cons.prems Inr ew ow t1 t2 Cons.IH show ?thesis
      by (cases ok) (auto split: if_splits)
  qed
qed

lemma env_Echo_worker: "Echo_worker fd var ret w = (r, w') \<Longrightarrow> env w' = env w"
  by (auto simp: Echo_worker_def env_os_close split: prod.splits sum.splits bool.splits
      dest!: env_Echo_for env_os_write)

lemma env_RunThread_done: "env (snd (RunThread_done tid str x)) = env (snd x)"
  by (cases x) (auto simp: RunThread_done_def split: sum.splits)

lemma env_Echo_start: "Echo_start var str w = (r, w') \<Longrightarrow> env w' = env w"
proof -
  assume a: "Echo_start var str w = (r, w')"
  show ?thesis
  proof (cases "check_streams (Echo var) str")
    case (Some e)
    with a show ?thesis by (simp add: Echo_start_def)
  next
    case None
    obtain r1 w1 where op: "open_pipe (s_out str) (Streams_None, Streams_None) False w = (r1, w1)"
      by force
    note e1 = env_open_pipe[OF op]
    show ?thesis
    proof (cases r1)
      case (Inl e)
      with a None op e1 show ?thesis by (simp add: Echo_start_def)
    next
      case (Inr x)
      obtain str_out fds where x: "x = (str_out, fds)" by (cases x) auto
      obtain tid w2 where tc: "thread_create w1 = (tid, w2)" by force
      obtain rr w3 where wk: "Echo_worker (snd fds) var 0 w2 = (rr, w3)" by force
      from a None op Inr x tc wk
      have "w' = snd (RunThread_done tid (str\<lparr>s_out := str_out\<rparr>) (rr, w3))"
        by (simp add: Echo_start_def)
      then have "env w' = env w3" by (simp add: env_RunThread_done)
      with env_Echo_worker[OF wk] env_thread_create[OF tc] e1 show ?thesis by simp
    qed
  qed
qed

lemma env_File_start: "File_start path mode str w = (r, w') \<Longrightarrow> env w' = env w"
  by (auto simp: File_start_def split: option.splits sum.splits prod.splits if_splits
      dest!: env_os_open)

lemma env_wait: "wait p w = (r, w') \<Longrightarrow> env w' = env w"
proof (induction p arbitrary: w r w')
  case (RunPipe lhs rhs)
  obtain r1 w1 where l: "wait lhs w = (r1, w1)" by force
  obtain r2 w2 where rr: "wait rhs w1 = (r2, w2)" by force
  have "w' = w1 \<or> w' = w2"
    using RunPipe.prems l rr by (cases r1; cases r2) auto
  with RunPipe.IH(1)[OF l] RunPipe.IH(2)[OF rr] show ?case
    by auto
next
  case (RunExec pid streams)
  then show ?case
    by (auto split: prod.splits option.splits dest!: env_os_waitid)
next
  case (RunThread tid ret streams)
  then show ?case
    by (auto split: prod.splits option.splits dest!: env_thread_join)
next
  case (RunEmpty streams ret)
  then show ?case by simp
qed

lemma env_wait_started:
  assumes "env (snd x) = e"
  shows "env (snd (wait_started x)) = e"
proof (cases x)
  case (Pair a w1)
  show ?thesis
  proof (cases a)
    case (Inl err)
    with Pair assms show ?thesis by (simp add: wait_started_def)
  next
    case (Inr p)
    obtain r w2 where w: "wait p w1 = (r, w2)" by force
    from env_wait[OF w] Pair Inr assms w show ?thesis by (simp add: wait_started_def)
  qed
qed

lemma env_pipe_step:
  assumes l: "\<And>s w. env (snd (start lhs s mut w)) = env w"
    and r: "\<And>s w. env (snd (start rhs s mut w)) = env w"
  shows "env (snd
     (case start lhs s1 mut w of
        (Inl e, w1) \<Rightarrow> (Inl e, w1)
      | (Inr lhs_p, w1) \<Rightarrow>
          (case start rhs (g lhs_p) mut w1 of
             (Inl e, w2) \<Rightarrow> (Inl e, w2)
           | (Inr rhs_p, w2) \<Rightarrow> (Inr (h lhs_p rhs_p), w2)))) = env w"
proof -
  obtain r1 w1 where s1: "start lhs s1 mut w = (r1, w1)" by force
  from l[of s1 w] s1 have e1: "env w1 = env w" by simp
  show ?thesis
  proof (cases r1)
    case (Inl e)
    with s1 e1 show ?thesis by simp
  next
    case (Inr p)
    obtain r2 w2 where s2: "start rhs (g p) mut w1 = (r2, w2)" by force
    from r[of "g p" w1] s2 have "env w2 = env w1" by simp
    with s1 Inr s2 e1 show ?thesis by (cases r2) simp_all
  qed
qed

lemma env_logic_step:
  assumes l: "\<And>s w. env (snd (start lhs s mut w)) = env w"
    and r: "\<And>s w. env (snd (start rhs s mut w)) = env w"
  shows "env (snd
           (case wait_started (start lhs Streams_default mut wa) of
              (Inl e, w2) \<Rightarrow> (Inl e, w2)
            | (Inr a, w2) \<Rightarrow>
                if c a then (Inr (k a), w2)
                else
                  (case wait_started (start rhs Streams_default mut w2) of
                     (Inl e, w3) \<Rightarrow> (Inl e, w3)
                   | (Inr b, w3) \<Rightarrow> (Inr (h a b), w3)))) = env wa"
proof -
  obtain x w2 where ls: "wait_started (start lhs Streams_default mut wa) = (x, w2)" by force
  obtain y w3 where rs: "wait_started (start rhs Streams_default mut w2) = (y, w3)" by force
  from env_wait_started[OF l, of Streams_default wa] ls have e2: "env w2 = env wa" by simp
  from env_wait_started[OF r, of Streams_default w2] rs have e3: "env w3 = env w2" by simp
  from ls rs e2 e3 show ?thesis
    by (cases x; cases y) auto
qed

lemma env_start_const: "env (snd (start sub str False w)) = env w"
proof (induction sub arbitrary: str w)
  case (Pipe lhs rhs)
  show ?case
  proof (cases "check_streams (Pipe lhs rhs) str")
    case (Some e)
    then show ?thesis by simp
  next
    case None
    note a = env_pipe_step[of lhs False rhs, OF Pipe.IH(1) Pipe.IH(2)]
    note b = env_pipe_step[of rhs False lhs, OF Pipe.IH(2) Pipe.IH(1)]
    from None show ?thesis
      using a[where w = w and h = RunPipe
          and g = "\<lambda>lhs_p. \<lparr>s_in = s_out (get_streams lhs_p), s_out = s_out str, s_err = Streams_None\<rparr>"]
        b[where w = w and h = "\<lambda>r l. RunPipe l r"
          and g = "\<lambda>rhs_p. \<lparr>s_in = s_in str, s_out = s_in (get_streams rhs_p), s_err = Streams_None\<rparr>"]
      by simp
  qed
next
  case (Or lhs rhs)
  show ?case
  proof (cases "check_streams (Or lhs rhs) str")
    case (Some e)
    then show ?thesis by simp
  next
    case None
    obtain tid w1 where tc: "thread_create w = (tid, w1)" by force
    from env_logic_step[of lhs False rhs, OF Or.IH(1) Or.IH(2), where wa = w1 and c = "\<lambda>a. a = 0"
        and k = "\<lambda>a. of_bool (\<not> True)" and h = "\<lambda>a b. of_bool (\<not> (a = 0 \<or> b = 0))"]
      None tc env_thread_create[OF tc]
    show ?thesis by (simp add: env_RunThread_done)
  qed
next
  case (And lhs rhs)
  show ?case
  proof (cases "check_streams (And lhs rhs) str")
    case (Some e)
    then show ?thesis by simp
  next
    case None
    obtain tid w1 where tc: "thread_create w = (tid, w1)" by force
    from env_logic_step[of lhs False rhs, OF And.IH(1) And.IH(2), where wa = w1 and c = "\<lambda>a. a \<noteq> 0"
        and k = "\<lambda>a. of_bool (\<not> False)" and h = "\<lambda>a b. of_bool (\<not> (a = 0 \<and> b = 0))"]
      None tc env_thread_create[OF tc]
    show ?thesis by (simp add: env_RunThread_done)
  qed
next
  case (Exec argv)
  obtain r w' where "Exec_start argv str w = (r, w')" by force
  from env_Exec_start[OF this] this show ?case by simp
next
  case (Echo var)
  obtain r w' where "Echo_start var str w = (r, w')" by force
  from env_Echo_start[OF this] this show ?case by simp
next
  case (Read name)
  show ?case by (simp add: Read_start_def)
next
  case (File path mode)
  obtain r w' where "File_start path mode str w = (r, w')" by force
  from env_File_start[OF this] this show ?case by simp
next
  case True'
  show ?case by (simp add: True_start_def split: option.splits)
next
  case False'
  show ?case by (simp add: False_start_def split: option.splits)
qed

lemma env_run_const: "env (snd (run sub False w)) = env w"
  unfolding run_def by (rule env_wait_started) (rule env_start_const)

section \<open>The claims\<close>

subsection \<open>C1: the status of And and Or\<close>

text \<open>
  Claim C1, as amended. For every \<open>And lhs rhs\<close> run in a world \<open>w\<close> (the children run in
  the worker thread, that is in the world after \<open>thread_create\<close>): when the left child
  completes with a status \<open>a \<noteq> 0\<close>, evaluation stops, the right child is not run (the
  world after the \<open>And\<close> is the world after the left child, with the worker joined), and
  the status of the \<open>And\<close> is \<open>1\<close>; when the left child's status is zero, the right child
  runs in the world the left one left and the status of the \<open>And\<close> is \<open>0\<close> if the right
  child's status is \<open>0\<close> and \<open>1\<close> otherwise. For \<open>Or lhs rhs\<close>, when the left child succeeds
  the right child is not run and the status is the left child's, \<open>0\<close>.
\<close>

theorem And_Or_status:
  "(run lhs mut (snd (thread_create w)) = (Inr a, w2) \<longrightarrow> a \<noteq> 0 \<longrightarrow>
      run (And lhs rhs) mut w = (Inr 1, w2\<lparr>joinable := (joinable w2)(threads w := False)\<rparr>))
   \<and> (run lhs mut (snd (thread_create w)) = (Inr 0, w2) \<longrightarrow> run rhs mut w2 = (Inr b, w3) \<longrightarrow>
      run (And lhs rhs) mut w =
        (Inr (if b = 0 then 0 else 1), w3\<lparr>joinable := (joinable w3)(threads w := False)\<rparr>))
   \<and> (run lhs mut (snd (thread_create w)) = (Inr 0, w2) \<longrightarrow>
      run (Or lhs rhs) mut w = (Inr 0, w2\<lparr>joinable := (joinable w2)(threads w := False)\<rparr>))"
proof (intro conjI impI)
  define w1 where "w1 = snd (thread_create w)"
  have tc: "thread_create w = (threads w, w1)" by (simp add: w1_def thread_create_def)
  {
    assume l: "run lhs mut (snd (thread_create w)) = (Inr a, w2)" and a: "a \<noteq> 0"
    from worker_joinable[OF l] have j: "joinable w2 (threads w)" .
    from l have l': "wait_started (start lhs Streams_default mut w1) = (Inr a, w2)"
      by (simp add: run_def w1_def)
    have "start (And lhs rhs) Streams_default mut w = (Inr (RunThread (threads w) 1 Streams_default), w2)"
      using a by (simp add: check_default tc l' RunThread_done_def)
    then show "run (And lhs rhs) mut w = (Inr 1, w2\<lparr>joinable := (joinable w2)(threads w := False)\<rparr>)"
      unfolding run_def by (simp add: wait_started_def thread_join_def j)
  }
  {
    assume l: "run lhs mut (snd (thread_create w)) = (Inr 0, w2)" and r: "run rhs mut w2 = (Inr b, w3)"
    from l have l': "wait_started (start lhs Streams_default mut w1) = (Inr 0, w2)"
      by (simp add: run_def w1_def)
    from r have r': "wait_started (start rhs Streams_default mut w2) = (Inr b, w3)"
      by (simp add: run_def)
    from worker_joinable[OF l] have "joinable w2 (threads w)" .
    moreover from run_frame(1)[OF l] have "threads w < threads w2" by (simp add: thread_create_def)
    ultimately have j: "joinable w3 (threads w)" using run_frame(2)[OF r] by simp
    have "start (And lhs rhs) Streams_default mut w =
        (Inr (RunThread (threads w) (if b = 0 then 0 else 1) Streams_default), w3)"
      by (simp add: check_default tc l' r' RunThread_done_def)
    then show "run (And lhs rhs) mut w =
        (Inr (if b = 0 then 0 else 1), w3\<lparr>joinable := (joinable w3)(threads w := False)\<rparr>)"
      unfolding run_def by (simp add: wait_started_def thread_join_def j)
  }
  {
    assume l: "run lhs mut (snd (thread_create w)) = (Inr 0, w2)"
    from worker_joinable[OF l] have j: "joinable w2 (threads w)" .
    from l have l': "wait_started (start lhs Streams_default mut w1) = (Inr 0, w2)"
      by (simp add: run_def w1_def)
    have "start (Or lhs rhs) Streams_default mut w = (Inr (RunThread (threads w) 0 Streams_default), w2)"
      by (simp add: check_default tc l' RunThread_done_def)
    then show "run (Or lhs rhs) mut w = (Inr 0, w2\<lparr>joinable := (joinable w2)(threads w := False)\<rparr>)"
      unfolding run_def by (simp add: wait_started_def thread_join_def j)
  }
qed

text \<open>
  Claim C1 as stated has the \<open>And\<close> return the left child's failing status. The program
  \<open>sh\<close> leaves with status 5 in \<open>world0\<close>, and \<open>exec("sh") && true_\<close> returns 1: the worker
  computes \<open>!(!run(lhs, env) && !run(rhs, env))\<close>, a \<open>bool\<close>.
\<close>

theorem And_status_counterexample:
  "fst (run (Exec [GettableString ''sh'']) True (snd (thread_create world0))) = Inr 5
   \<and> fst (run (And (Exec [GettableString ''sh'']) True') True world0) = Inr 1"
  by (simp add: eval_defs world0_def)

theorem And_Or_status_witness:
  "run False' True (snd (thread_create world0)) = (Inr (-1), snd (thread_create world0))
   \<and> run (And False' (Read ''x'')) True world0 =
       (Inr 1, (snd (thread_create world0))\<lparr>joinable := (joinable (snd (thread_create world0)))(threads world0 := False)\<rparr>)
   \<and> run True' True (snd (thread_create world0)) = (Inr 0, snd (thread_create world0))
   \<and> run False' True (snd (thread_create world0)) = (Inr (-1), snd (thread_create world0))
   \<and> run (And True' False') True world0 =
       (Inr 1, (snd (thread_create world0))\<lparr>joinable := (joinable (snd (thread_create world0)))(threads world0 := False)\<rparr>)
   \<and> run (Or True' False') True world0 =
       (Inr 0, (snd (thread_create world0))\<lparr>joinable := (joinable (snd (thread_create world0)))(threads world0 := False)\<rparr>)"
proof -
  let ?w1 = "snd (thread_create world0)"
  have f: "run False' True ?w1 = (Inr (-1), ?w1)" by (simp add: eval_defs)
  have t: "run True' True ?w1 = (Inr 0, ?w1)" by (simp add: eval_defs)
  note th = And_Or_status[of _ True world0]
  from th[of False' "-1" ?w1 "Read ''x''"] f
  have 1: "run (And False' (Read ''x'')) True world0 =
       (Inr 1, ?w1\<lparr>joinable := (joinable ?w1)(threads world0 := False)\<rparr>)" by simp
  from th[of True' 0 ?w1 False' "-1" ?w1] f t
  have 2: "run (And True' False') True world0 =
       (Inr 1, ?w1\<lparr>joinable := (joinable ?w1)(threads world0 := False)\<rparr>)" by simp
  from th[of True' 0 ?w1 False'] t
  have 3: "run (Or True' False') True world0 =
       (Inr 0, ?w1\<lparr>joinable := (joinable ?w1)(threads world0 := False)\<rparr>)" by simp
  from f t 1 2 3 show ?thesis by (simp only:)
qed

subsection \<open>C2: short circuit\<close>

text \<open>
  Claim C2. For every expression \<open>X\<close>, every environment reference and every world,
  \<open>run (And False' X)\<close> returns 1 and \<open>run (Or True' X)\<close> returns 0, and the world after differs
  from the world before only by the worker thread of the \<open>And\<close> or \<open>Or\<close> itself, created
  and joined: no process, thread, descriptor, pipe or file of \<open>X\<close> exists and the
  environment is the one before (a variable \<open>X\<close> would capture is as absent as it was).
  The result does not depend on \<open>X\<close>; the left child has been run to its end before.
\<close>

theorem And_False_short_circuit:
  "run (And False' X) mut w =
     (Inr 1, w\<lparr>threads := Suc (threads w), joinable := (joinable w)(threads w := False)\<rparr>)
   \<and> run (Or True' X) mut w =
     (Inr 0, w\<lparr>threads := Suc (threads w), joinable := (joinable w)(threads w := False)\<rparr>)"
  by (simp add: run_def wait_started_def check_default thread_create_def False_start_def
      True_start_def RunThread_done_def thread_join_def)

text \<open>The test \<open>ShortCircuitAnd\<close> of the repository: after
  \<open>false_ && echo("test") | read("test")\<close> the variable \<open>test\<close> is absent.\<close>

theorem And_False_short_circuit_witness:
  "fst (run (And False' (Pipe (Echo [GettableString ''test'']) (Read ''test''))) True world0) = Inr 1
   \<and> map_at (env (snd (run (And False' (Pipe (Echo [GettableString ''test'']) (Read ''test'')))
                          True world0))) ''test'' = Inl out_of_range
   \<and> nprocs (snd (run (And False' (Pipe (Echo [GettableString ''test'']) (Read ''test'')))
                          True world0)) = 0
   \<and> threads (snd (run (And False' (Pipe (Echo [GettableString ''test'']) (Read ''test'')))
                          True world0)) = 1"
  using And_False_short_circuit[of "Pipe (Echo [GettableString ''test'']) (Read ''test'')" True world0]
  by (simp add: world0_def map_at_def)

subsection \<open>C3: the handle of a pipe\<close>

text \<open>
  Claim C3. \<open>wait\<close> on a \<open>RunPipe\<close> waits on the left handle, then on the right one, and
  returns the bitwise or of their statuses, which is zero exactly when both are zero;
  the handle's streams are the left handle's \<open>in\<close> and the right handle's \<open>out\<close> and \<open>err\<close>.
\<close>

theorem RunPipe_wait:
  "(wait lhs_p w = (Inr a, w1) \<longrightarrow> wait rhs_p w1 = (Inr b, w2) \<longrightarrow>
      wait (RunPipe lhs_p rhs_p) w = (Inr (a OR b), w2) \<and> (a OR b = 0 \<longleftrightarrow> a = 0 \<and> b = 0))
   \<and> get_streams (RunPipe lhs_p rhs_p) =
       \<lparr>s_in = s_in (get_streams lhs_p), s_out = s_out (get_streams rhs_p),
        s_err = s_err (get_streams rhs_p)\<rparr>"
  by (simp add: or_eq_0_iff)

theorem RunPipe_wait_witness:
  "wait (RunEmpty \<lparr>s_in = 0, s_out = 5, s_err = -1\<rparr> 0) world0 = (Inr 0, world0)
   \<and> wait (RunEmpty \<lparr>s_in = 5, s_out = 1, s_err = 2\<rparr> 3) world0 = (Inr 3, world0)
   \<and> wait (RunPipe (RunEmpty \<lparr>s_in = 0, s_out = 5, s_err = -1\<rparr> 0)
                    (RunEmpty \<lparr>s_in = 5, s_out = 1, s_err = 2\<rparr> 3)) world0 = (Inr 3, world0)
   \<and> get_streams (RunPipe (RunEmpty \<lparr>s_in = 0, s_out = 5, s_err = -1\<rparr> 0)
                           (RunEmpty \<lparr>s_in = 5, s_out = 1, s_err = 2\<rparr> 3)) =
       \<lparr>s_in = 0, s_out = 1, s_err = 2\<rparr>"
  using RunPipe_wait[of "RunEmpty \<lparr>s_in = 0, s_out = 5, s_err = -1\<rparr> 0" world0 0 world0
      "RunEmpty \<lparr>s_in = 5, s_out = 1, s_err = 2\<rparr> 3" 3 world0]
  by simp

subsection \<open>C4: the negotiation of a pipe\<close>

text \<open>
  Claim C4. \<open>Pipe::start\<close> first checks the requested streams against the flags of the pipe
  (claim C6); for a request that passes: if the left child's output capability
  includes \<open>Create\<close> and the right child's input capability includes \<open>Accept\<close>, the left
  child is started first, with a to-be-created output, and the right child is then
  started in the world the left one left, with the left handle's output descriptor as
  its input; otherwise, if the left child's output capability includes \<open>Accept\<close> and the
  right child's input capability includes \<open>Create\<close>, the right child is started first,
  with a to-be-created input, and the left child then, with the right handle's input
  descriptor as its output. When neither holds, \<open>std::invalid_argument\<close> is thrown and
  the world is unchanged: neither side has been started.
\<close>

theorem Pipe_start_negotiation:
  "(check_streams (Pipe lhs rhs) str = None \<and>
    Create \<in> capabilities (f_out (get_flags lhs)) \<and> Accept \<in> capabilities (f_in (get_flags rhs)) \<longrightarrow>
      start (Pipe lhs rhs) str mut w =
        (case start lhs \<lparr>s_in = s_in str, s_out = Streams_New, s_err = Streams_None\<rparr> mut w of
           (Inl e, w1) \<Rightarrow> (Inl e, w1)
         | (Inr lhs_p, w1) \<Rightarrow>
             (case start rhs \<lparr>s_in = s_out (get_streams lhs_p), s_out = s_out str,
                              s_err = Streams_None\<rparr> mut w1 of
                (Inl e, w2) \<Rightarrow> (Inl e, w2)
              | (Inr rhs_p, w2) \<Rightarrow> (Inr (RunPipe lhs_p rhs_p), w2))))
   \<and> (check_streams (Pipe lhs rhs) str = None \<and>
      \<not> (Create \<in> capabilities (f_out (get_flags lhs)) \<and> Accept \<in> capabilities (f_in (get_flags rhs))) \<and>
      Accept \<in> capabilities (f_out (get_flags lhs)) \<and> Create \<in> capabilities (f_in (get_flags rhs)) \<longrightarrow>
      start (Pipe lhs rhs) str mut w =
        (case start rhs \<lparr>s_in = Streams_New, s_out = s_out str, s_err = Streams_None\<rparr> mut w of
           (Inl e, w1) \<Rightarrow> (Inl e, w1)
         | (Inr rhs_p, w1) \<Rightarrow>
             (case start lhs \<lparr>s_in = s_in str, s_out = s_in (get_streams rhs_p),
                              s_err = Streams_None\<rparr> mut w1 of
                (Inl e, w2) \<Rightarrow> (Inl e, w2)
              | (Inr lhs_p, w2) \<Rightarrow> (Inr (RunPipe lhs_p rhs_p), w2))))
   \<and> (\<not> (Create \<in> capabilities (f_out (get_flags lhs)) \<and> Accept \<in> capabilities (f_in (get_flags rhs))) \<and>
      \<not> (Accept \<in> capabilities (f_out (get_flags lhs)) \<and> Create \<in> capabilities (f_in (get_flags rhs))) \<longrightarrow>
      (\<exists>m. start (Pipe lhs rhs) str mut w = (Inl (invalid_argument m), w)))"
proof (intro conjI impI)
  assume "\<not> (Create \<in> capabilities (f_out (get_flags lhs)) \<and> Accept \<in> capabilities (f_in (get_flags rhs))) \<and>
      \<not> (Accept \<in> capabilities (f_out (get_flags lhs)) \<and> Create \<in> capabilities (f_in (get_flags rhs)))"
  then have n: "\<not> (f_out (get_flags lhs) AND Create \<noteq> 0 \<and> f_in (get_flags rhs) AND Accept \<noteq> 0)"
    "\<not> (f_out (get_flags lhs) AND Accept \<noteq> 0 \<and> f_in (get_flags rhs) AND Create \<noteq> 0)"
    by (simp_all add: capabilities_iff)
  show "\<exists>m. start (Pipe lhs rhs) str mut w = (Inl (invalid_argument m), w)"
  proof (cases "check_streams (Pipe lhs rhs) str")
    case None
    with n show ?thesis by auto
  next
    case (Some e)
    then show ?thesis by (rule start_check_fails)
  qed
qed (auto simp: capabilities_iff)

theorem Pipe_start_negotiation_witness:
  "check_streams (Pipe (Echo [GettableString ''Does'', GettableString ''echo'']) (Read ''x''))
      Streams_default = None
   \<and> Create \<in> capabilities (f_out (get_flags (Echo [GettableString ''Does'', GettableString ''echo''])))
   \<and> Accept \<in> capabilities (f_in (get_flags (Read ''x'')))
   \<and> fst (start (Pipe (Echo [GettableString ''Does'', GettableString ''echo'']) (Read ''x''))
          Streams_default True world0) =
       Inr (RunPipe (RunThread 0 0 \<lparr>s_in = -1, s_out = 3, s_err = -1\<rparr>)
                    (RunThread 1 0 \<lparr>s_in = 3, s_out = -1, s_err = -1\<rparr>))
   \<and> check_streams (Pipe (Echo [GettableString ''a'']) (File (GettableString ''f'') 2))
      Streams_default = None
   \<and> Accept \<notin> capabilities (f_in (get_flags (File (GettableString ''f'') 2)))
   \<and> Accept \<in> capabilities (f_out (get_flags (Echo [GettableString ''a''])))
   \<and> Create \<in> capabilities (f_in (get_flags (File (GettableString ''f'') 2)))
   \<and> fst (start (Pipe (Echo [GettableString ''a'']) (File (GettableString ''f'') 2))
          Streams_default True world0) =
       Inr (RunPipe (RunThread 0 0 \<lparr>s_in = -1, s_out = 3, s_err = -1\<rparr>)
                    (RunEmpty \<lparr>s_in = 3, s_out = -1, s_err = -1\<rparr> 0))
   \<and> Create \<notin> capabilities (f_out (get_flags (Read ''a'')))
   \<and> Accept \<notin> capabilities (f_out (get_flags (Read ''a'')))
   \<and> (\<exists>m. start (Pipe (Read ''a'') (Read ''b''))
            \<lparr>s_in = Streams_New, s_out = Streams_None, s_err = Streams_None\<rparr> True world0 =
          (Inl (invalid_argument m), world0))"
  using Pipe_start_negotiation[of "Echo [GettableString ''Does'', GettableString ''echo'']"
      "Read ''x''" Streams_default True world0]
    Pipe_start_negotiation[of "Echo [GettableString ''a'']" "File (GettableString ''f'') 2"
      Streams_default True world0]
    Pipe_start_negotiation[of "Read ''a''" "Read ''b''"
      "\<lparr>s_in = Streams_New, s_out = Streams_None, s_err = Streams_None\<rparr>" True world0]
  by (simp add: eval_defs loop_defs world0_def)

subsection \<open>C5: the environment block of a command\<close>

text \<open>
  Claim C5 at a failing input. In \<open>world0\<close> the environment holds \<open>HOME\<close> with the value
  \<open>/root\<close>, exported, and \<open>TMP\<close> with the value \<open>/tmp\<close>, not exported. The command
  \<open>exec("printenv", $("TMP"))\<close> is launched with its arguments resolved at that moment
  (\<open>TMP\<close> has become \<open>/tmp\<close>) and with the block of \<open>envp()\<close>, which is filtered to the
  exported entry but holds its value only: the entry is \<open>/root\<close>, not \<open>HOME=/root\<close>. The
  name of the variable is not in the block.
\<close>

theorem Exec_envp_values_only:
  "envp (env world0) = [''/root'']
   \<and> procs (snd (start (Exec [GettableString ''printenv'', GettableVariable ''TMP''])
                   Streams_default False world0)) 1 =
       Some \<lparr>p_argv = [''printenv'', ''/tmp''], p_envp = [''/root''], p_status = 5,
             p_reaped = False\<rparr>"
  by (simp add: eval_defs world0_def map_at_def)

subsection \<open>C6: the check of the requested streams\<close>

text \<open>
  Claim C6. A slot passes \<open>check_stream\<close> exactly when it is \<open>None\<close> and the capability
  includes \<open>Ignore\<close>, or it is \<open>New\<close> and the capability includes \<open>Create\<close>, or it is a
  descriptor (\<open>\<ge> 0\<close>) and the capability includes \<open>Accept\<close>. For every node, every request,
  either kind of environment reference and every world: when one of the three slots
  fails the check against the node's flags, \<open>start\<close> throws \<open>std::invalid_argument\<close> and
  the world is unchanged, so nothing has been started.
\<close>

theorem start_check_streams:
  "(check_stream stream flag \<longleftrightarrow>
      (stream = Streams_None \<and> Ignore \<in> capabilities flag) \<or>
      (stream = Streams_New \<and> Create \<in> capabilities flag) \<or>
      (0 \<le> stream \<and> Accept \<in> capabilities flag))
   \<and> (\<not> (check_stream (s_in str) (f_in (get_flags sub)) \<and>
           check_stream (s_out str) (f_out (get_flags sub)) \<and>
           check_stream (s_err str) (f_err (get_flags sub)))
        \<longrightarrow> (\<exists>m. start sub str mut w = (Inl (invalid_argument m), w)))"
proof (intro conjI impI)
  show "check_stream stream flag \<longleftrightarrow>
      (stream = Streams_None \<and> Ignore \<in> capabilities flag) \<or>
      (stream = Streams_New \<and> Create \<in> capabilities flag) \<or>
      (0 \<le> stream \<and> Accept \<in> capabilities flag)"
    by (simp add: check_stream_def capabilities_iff)
next
  assume "\<not> (check_stream (s_in str) (f_in (get_flags sub)) \<and>
           check_stream (s_out str) (f_out (get_flags sub)) \<and>
           check_stream (s_err str) (f_err (get_flags sub)))"
  then have "check_streams sub str \<noteq> None" by (simp add: check_streams_None_iff)
  then obtain e where "check_streams sub str = Some e" by auto
  then show "\<exists>m. start sub str mut w = (Inl (invalid_argument m), w)"
    by (rule start_check_fails)
qed

theorem start_check_streams_witness:
  "check_stream Streams_New (Create OR Accept) \<and> \<not> check_stream Streams_None (Create OR Accept)
   \<and> \<not> check_stream (-3) (Create OR Accept OR Ignore)
   \<and> (\<exists>m. start (Echo [GettableString ''x'']) Streams_default False world0 =
          (Inl (invalid_argument m), world0))"
  using start_check_streams[of Streams_New "Create OR Accept" Streams_default "Echo [GettableString ''x'']" False world0]
    start_check_streams[of Streams_None "Create OR Accept" Streams_default "Echo [GettableString ''x'']" False world0]
    start_check_streams[of "-3" "Create OR Accept OR Ignore" Streams_default "Echo [GettableString ''x'']" False world0]
  by (simp add: capabilities_def check_stream_def Streams_default_def const_defs)

subsection \<open>C7: echo into a capture\<close>

text \<open>
  Claim C7. In every world that has two descriptors left for the pipe, and for every
  size of the transfers of \<open>write\<close> and \<open>read\<close>, running the pipe of an echo of literal
  strings into \<open>Read name\<close> on a mutable environment returns 0 and leaves the environment
  with \<open>name\<close> assigned the strings joined by single spaces, without the newline the echo
  wrote after them, and with \<open>exported = false\<close>; looking \<open>name\<close> up gives that entry.
\<close>

theorem Echo_Read_round_trip:
  assumes "next_fd w + 2 \<le> fd_limit w"
  shows "\<exists>w'. run (Pipe (Echo (map GettableString strs)) (Read name)) True w = (Inr 0, w')
           \<and> env w' = map_assign name (unwords strs, False) (env w)
           \<and> map_at (env w') name = Inr (unwords strs, False)"
proof -
  let ?S1 = "\<lparr>s_in = Streams_None, s_out = Streams_New, s_err = Streams_None\<rparr>"
  let ?fd = "int (next_fd w)"
  obtain w1 where e: "Echo_start (map GettableString strs) ?S1 w =
          (Inr (RunThread (threads w) 0 \<lparr>s_in = Streams_None, s_out = ?fd, s_err = Streams_None\<rparr>), w1)"
    and fd1: "fdtab w1 ?fd = Some (PipeRead (next_pipe w))"
    and p1: "pipes w1 (next_pipe w) = unwords strs @ newline"
    and e1: "env w1 = env w"
    and t1: "threads w1 = Suc (threads w)"
    and j1: "joinable w1 = (joinable w)(threads w := True)"
    using Echo_start_New[OF assms, of strs] by blast
  obtain w2 where r: "Read_start name \<lparr>s_in = ?fd, s_out = Streams_None, s_err = Streams_None\<rparr> True w1 =
          (Inr (RunThread (threads w1) 0 \<lparr>s_in = ?fd, s_out = Streams_None, s_err = Streams_None\<rparr>), w2)"
    and e2: "env w2 = map_assign name (remove_trailing_newline (pipes w1 (next_pipe w)), False) (env w1)"
    and t2: "threads w2 = Suc (threads w1)"
    and j2: "joinable w2 = (joinable w1)(threads w1 := True)"
    using Read_start_bound[OF fd1, of name] by auto
  have chk: "check_streams (Pipe (Echo (map GettableString strs)) (Read name)) Streams_default = None"
    by (simp add: check_streams_def Streams_default_def check_stream_simps)
  have cond: "f_out (get_flags (Echo (map GettableString strs))) AND Create \<noteq> 0"
    "f_in (get_flags (Read name)) AND Accept \<noteq> 0"
    by (simp_all add: const_defs)
  have st: "start (Pipe (Echo (map GettableString strs)) (Read name)) Streams_default True w =
      (Inr (RunPipe (RunThread (threads w) 0 \<lparr>s_in = Streams_None, s_out = ?fd, s_err = Streams_None\<rparr>)
                    (RunThread (threads w1) 0 \<lparr>s_in = ?fd, s_out = Streams_None, s_err = Streams_None\<rparr>)), w2)"
    using chk cond by (simp add: Streams_default_def e r)
  define w3 where "w3 = w2\<lparr>joinable := (joinable w2)(threads w := False)\<rparr>"
  define w4 where "w4 = w3\<lparr>joinable := (joinable w3)(threads w1 := False)\<rparr>"
  have jn1: "thread_join (threads w) w2 = (None, w3)"
    by (simp add: thread_join_def j2 j1 t1 w3_def)
  have jn2: "thread_join (threads w1) w3 = (None, w4)"
    by (simp add: thread_join_def j2 j1 t1 w3_def w4_def)
  have "run (Pipe (Echo (map GettableString strs)) (Read name)) True w = (Inr 0, w4)"
    unfolding run_def st by (simp add: wait_started_def jn1 jn2)
  moreover have "env w4 = map_assign name (unwords strs, False) (env w)"
    by (simp add: w4_def w3_def e2 e1 p1 remove_trailing_newline_append)
  ultimately show ?thesis
    by (auto simp: map_at_map_assign)
qed

text \<open>The strings \<open>Does\<close>, \<open>echo\<close>, \<open>work\<close> are stored as \<open>Does echo work\<close>.\<close>

theorem Echo_Read_round_trip_witness:
  "next_fd world0 + 2 \<le> fd_limit world0
   \<and> (\<exists>w'. run (Pipe (Echo [GettableString ''Does'', GettableString ''echo'', GettableString ''work''])
                      (Read ''out'')) True world0 = (Inr 0, w')
          \<and> map_at (env w') ''out'' = Inr (''Does echo work'', False))"
  using Echo_Read_round_trip[of world0 "[''Does'', ''echo'', ''work'']" "''out''"]
  by (auto simp: world0_def space_def)

subsection \<open>C8: capture on an immutable environment\<close>

text \<open>
  Claim C8, as amended. Starting \<open>Read name\<close> through the overload for
  \<open>const Environment &\<close> throws \<open>std::invalid_argument\<close>, whatever the requested streams,
  before the capture itself makes any descriptor, thread or process: the world is the one
  its \<open>start\<close> was called in, and so for \<open>run\<close> of the node. What the enclosing expression
  has started before is not undone: as the right side of a pipe whose left child can
  create its output the capture is started second, and when the left child has started,
  the pipe's \<open>start\<close> ends with the exception of the capture in the world the left child
  has left, its process or thread made and its descriptors open. The environment itself
  is unchanged by the start and by the run of every expression through that overload.
\<close>

theorem Read_start_const_Environment:
  "start (Read name) str False w =
     (Inl (invalid_argument ''Can't create variable in const Environment''), w)
   \<and> run (Read name) False w =
     (Inl (invalid_argument ''Can't create variable in const Environment''), w)
   \<and> (check_streams (Pipe lhs (Read name)) str = None \<longrightarrow>
       Create \<in> capabilities (f_out (get_flags lhs)) \<longrightarrow>
       start lhs \<lparr>s_in = s_in str, s_out = Streams_New, s_err = Streams_None\<rparr> False w
         = (Inr lhs_p, w1) \<longrightarrow>
       start (Pipe lhs (Read name)) str False w =
         (Inl (invalid_argument ''Can't create variable in const Environment''), w1))
   \<and> env (snd (start sub str False w)) = env w
   \<and> env (snd (run sub False w)) = env w"
proof (intro conjI impI)
  show "start (Read name) str False w =
     (Inl (invalid_argument ''Can't create variable in const Environment''), w)"
    by (simp add: Read_start_def)
  show "run (Read name) False w =
     (Inl (invalid_argument ''Can't create variable in const Environment''), w)"
    by (simp add: run_def wait_started_def Read_start_def)
  show "env (snd (start sub str False w)) = env w" by (rule env_start_const)
  show "env (snd (run sub False w)) = env w" by (rule env_run_const)
next
  assume chk: "check_streams (Pipe lhs (Read name)) str = None"
    and cap: "Create \<in> capabilities (f_out (get_flags lhs))"
    and st: "start lhs \<lparr>s_in = s_in str, s_out = Streams_New, s_err = Streams_None\<rparr> False w
         = (Inr lhs_p, w1)"
  from cap have c1: "f_out (get_flags lhs) AND Create \<noteq> 0" by (simp add: capabilities_iff)
  have c2: "f_in (get_flags (Read name)) AND Accept \<noteq> 0" by (simp add: const_defs)
  from chk c1 c2 st show "start (Pipe lhs (Read name)) str False w =
         (Inl (invalid_argument ''Can't create variable in const Environment''), w1)"
    by (simp add: Read_start_def)
qed

text \<open>
  Claim C8 as stated has the exception come before any process is spawned and with all
  state unchanged. In \<open>exec("mktemp") | read("tmpfile")\<close> on an immutable environment,
  \<open>Pipe::start\<close> starts the left child first: when the exception of the capture passes
  through it, the child process of \<open>mktemp\<close> has been made and the read end of its pipe is
  open.
\<close>

theorem Read_const_Environment_counterexample:
  "fst (start (Pipe (Exec [GettableString ''mktemp'']) (Read ''tmpfile'')) Streams_default False
          world0) = Inl (invalid_argument ''Can't create variable in const Environment'')
   \<and> nprocs world0 = 0
   \<and> nprocs (snd (start (Pipe (Exec [GettableString ''mktemp'']) (Read ''tmpfile''))
                    Streams_default False world0)) = 1
   \<and> procs (snd (start (Pipe (Exec [GettableString ''mktemp'']) (Read ''tmpfile''))
                    Streams_default False world0)) 1 =
       Some \<lparr>p_argv = [''mktemp''], p_envp = [''/root''], p_status = 5, p_reaped = False\<rparr>
   \<and> fdtab world0 3 = None
   \<and> fdtab (snd (start (Pipe (Exec [GettableString ''mktemp'']) (Read ''tmpfile''))
                    Streams_default False world0)) 3 = Some (PipeRead 0)"
  by (simp add: eval_defs world0_def)

theorem Read_start_const_Environment_witness:
  "start (Read ''test'') \<lparr>s_in = 0, s_out = Streams_None, s_err = Streams_None\<rparr> False world0 =
     (Inl (invalid_argument ''Can't create variable in const Environment''), world0)
   \<and> check_streams (Pipe (Exec [GettableString ''mktemp'']) (Read ''tmpfile'')) Streams_default = None
   \<and> Create \<in> capabilities (f_out (get_flags (Exec [GettableString ''mktemp''])))
   \<and> fst (start (Exec [GettableString ''mktemp''])
            \<lparr>s_in = Streams_None, s_out = Streams_New, s_err = Streams_None\<rparr> False world0) =
       Inr (RunExec 1 \<lparr>s_in = -1, s_out = 3, s_err = -1\<rparr>)
   \<and> start (Pipe (Exec [GettableString ''mktemp'']) (Read ''tmpfile'')) Streams_default False world0 =
       (Inl (invalid_argument ''Can't create variable in const Environment''),
        snd (start (Exec [GettableString ''mktemp''])
               \<lparr>s_in = Streams_None, s_out = Streams_New, s_err = Streams_None\<rparr> False world0))
   \<and> env (snd (run (Pipe (Exec [GettableString ''mktemp'']) (Read ''tmpfile'')) False world0)) =
       env world0"
proof -
  let ?S = "\<lparr>s_in = Streams_None, s_out = Streams_New, s_err = Streams_None\<rparr>"
  let ?E = "Exec [GettableString ''mktemp'']"
  have chk: "check_streams (Pipe ?E (Read ''tmpfile'')) Streams_default = None"
    by (simp add: eval_defs)
  have cap: "Create \<in> capabilities (f_out (get_flags ?E))"
    by (simp add: capabilities_def const_defs)
  have h: "fst (start ?E ?S False world0) = Inr (RunExec 1 \<lparr>s_in = -1, s_out = 3, s_err = -1\<rparr>)"
    by (simp add: eval_defs world0_def)
  then have st: "start ?E \<lparr>s_in = s_in Streams_default, s_out = Streams_New, s_err = Streams_None\<rparr>
      False world0 = (Inr (RunExec 1 \<lparr>s_in = -1, s_out = 3, s_err = -1\<rparr>), snd (start ?E ?S False world0))"
    by (simp add: Streams_default_def prod_eq_iff)
  note th = Read_start_const_Environment[of "''tmpfile''" Streams_default world0 ?E
      "RunExec 1 \<lparr>s_in = -1, s_out = 3, s_err = -1\<rparr>" "snd (start ?E ?S False world0)"
      "Pipe ?E (Read ''tmpfile'')"]
  from th chk cap st have p: "start (Pipe ?E (Read ''tmpfile'')) Streams_default False world0 =
       (Inl (invalid_argument ''Can't create variable in const Environment''),
        snd (start ?E ?S False world0))"
    by blast
  from th have e: "env (snd (run (Pipe ?E (Read ''tmpfile'')) False world0)) = env world0"
    by blast
  from Read_start_const_Environment[of "''test''"
      "\<lparr>s_in = 0, s_out = Streams_None, s_err = Streams_None\<rparr>" world0]
  have r: "start (Read ''test'') \<lparr>s_in = 0, s_out = Streams_None, s_err = Streams_None\<rparr> False world0 =
     (Inl (invalid_argument ''Can't create variable in const Environment''), world0)"
    by blast
  from r chk cap h p e show ?thesis by (simp only: simp_thms)
qed

subsection \<open>C9: the flags of the literal echo\<close>

text \<open>
  Claim C9, as amended. \<open>Echo\<close> declares the capability set \<open>{Create, Accept}\<close> on its
  standard output only; on its standard input and on its standard error it declares
  \<open>{Ignore}\<close>.
\<close>

theorem Echo_get_flags:
  "capabilities (f_out (get_flags (Echo var))) = {Create, Accept}
   \<and> capabilities (f_err (get_flags (Echo var))) = {Ignore}
   \<and> capabilities (f_in (get_flags (Echo var))) = {Ignore}"
  by (auto simp: capabilities_def const_defs)

text \<open>Claim C9 as stated gives \<open>{Create, Accept}\<close> for the standard error too.\<close>

theorem Echo_get_flags_counterexample:
  "\<not> (capabilities (f_out (get_flags (Echo [GettableString ''x'']))) = {Create, Accept}
      \<and> capabilities (f_err (get_flags (Echo [GettableString ''x'']))) = {Create, Accept}
      \<and> capabilities (f_in (get_flags (Echo [GettableString ''x'']))) = {Ignore})"
  by (auto simp: capabilities_def const_defs)

theorem Echo_get_flags_witness:
  "capabilities (f_err (get_flags (Echo [GettableString ''x'']))) = {Ignore}
   \<and> \<not> check_stream Streams_New (f_err (get_flags (Echo [GettableString ''x''])))"
  using Echo_get_flags[of "[GettableString ''x'']"]
  by (simp add: check_stream_def const_defs)

subsection \<open>C10: the stderr flag of a pipe\<close>

text \<open>
  Claim C10. The flags of \<open>Pipe lhs rhs\<close> declare for the standard error the right child's
  capability for its standard output, while the streams of the handle give for the
  standard error the right handle's standard error. So, whenever the right child's
  capabilities for output and error differ, the pipe declares for its standard error
  something else than the child whose standard error it exposes.
\<close>

theorem Pipe_get_flags_stderr:
  "f_err (get_flags (Pipe lhs rhs)) = f_out (get_flags rhs)
   \<and> s_err (get_streams (RunPipe lhs_p rhs_p)) = s_err (get_streams rhs_p)
   \<and> (f_out (get_flags rhs) \<noteq> f_err (get_flags rhs)
        \<longrightarrow> f_err (get_flags (Pipe lhs rhs)) \<noteq> f_err (get_flags rhs))"
  by simp

text \<open>For \<open>echo("a")\<close> piped into a file opened for reading and writing, the pipe
  declares \<open>Create\<close> for its standard error and a request for a to-be-created one passes the
  check, but the handle has no descriptor for it.\<close>

theorem Pipe_get_flags_stderr_witness:
  "f_out (get_flags (File (GettableString ''f'') 3)) \<noteq> f_err (get_flags (File (GettableString ''f'') 3))
   \<and> capabilities (f_err (get_flags (Pipe (Echo [GettableString ''a''])
                                          (File (GettableString ''f'') 3)))) = {Create}
   \<and> capabilities (f_err (get_flags (File (GettableString ''f'') 3))) = {Ignore}
   \<and> check_streams (Pipe (Echo [GettableString ''a'']) (File (GettableString ''f'') 3))
        \<lparr>s_in = Streams_None, s_out = Streams_New, s_err = Streams_New\<rparr> = None
   \<and> map_sum id get_streams
        (fst (start (Pipe (Echo [GettableString ''a'']) (File (GettableString ''f'') 3))
               \<lparr>s_in = Streams_None, s_out = Streams_New, s_err = Streams_New\<rparr> True world0)) =
       Inr \<lparr>s_in = -1, s_out = 3, s_err = -1\<rparr>"
  using Pipe_get_flags_stderr[of "Echo [GettableString ''a'']" "File (GettableString ''f'') 3"
      "RunThread 0 0 \<lparr>s_in = -1, s_out = 3, s_err = -1\<rparr>"
      "RunEmpty \<lparr>s_in = 3, s_out = 3, s_err = -1\<rparr> 0"]
  by (auto simp: eval_defs loop_defs world0_def)

end
